theory Spec2Isabelle
  imports Main "HOL-Library.Word"
begin

unbundle bit_operations_syntax

section \<open>Bytes and errors\<close>

text \<open>
  A Go \<^verbatim>\<open>[]byte\<close> is a list of 8-bit words. Where the code tells a \<^verbatim>\<open>nil\<close> slice from an
  empty one (the fields \<^verbatim>\<open>OP\<close> and \<^verbatim>\<open>OPc\<close>), the slice is an option and \<open>None\<close> is \<^verbatim>\<open>nil\<close>.
\<close>

type_synonym byte = "8 word"
type_synonym bytes = "byte list"

text \<open>
  Every way a call can fail: the errors the code returns, and \<open>Panic\<close> for a run-time panic
  (an index out of range, or a block handed to the cipher that is shorter than 16 bytes).
\<close>

datatype error =
    InvalidLength string nat nat  \<comment> \<open>\<^verbatim>\<open>length of F should be n, got: l\<close>\<close>
  | KeySizeError nat              \<comment> \<open>\<^verbatim>\<open>aes.KeySizeError\<close>\<close>
  | InvalidMCC string
  | InvalidMNC string
  | BuildSNNFailed bytes
  | Panic

section \<open>Go standard library \<^verbatim>\<open>crypto/aes\<close>: the AES block cipher of FIPS 197\<close>

definition sbox :: "byte list" where
  "sbox = [
    0x63, 0x7c, 0x77, 0x7b, 0xf2, 0x6b, 0x6f, 0xc5, 0x30, 0x01, 0x67, 0x2b, 0xfe, 0xd7, 0xab, 0x76,
    0xca, 0x82, 0xc9, 0x7d, 0xfa, 0x59, 0x47, 0xf0, 0xad, 0xd4, 0xa2, 0xaf, 0x9c, 0xa4, 0x72, 0xc0,
    0xb7, 0xfd, 0x93, 0x26, 0x36, 0x3f, 0xf7, 0xcc, 0x34, 0xa5, 0xe5, 0xf1, 0x71, 0xd8, 0x31, 0x15,
    0x04, 0xc7, 0x23, 0xc3, 0x18, 0x96, 0x05, 0x9a, 0x07, 0x12, 0x80, 0xe2, 0xeb, 0x27, 0xb2, 0x75,
    0x09, 0x83, 0x2c, 0x1a, 0x1b, 0x6e, 0x5a, 0xa0, 0x52, 0x3b, 0xd6, 0xb3, 0x29, 0xe3, 0x2f, 0x84,
    0x53, 0xd1, 0x00, 0xed, 0x20, 0xfc, 0xb1, 0x5b, 0x6a, 0xcb, 0xbe, 0x39, 0x4a, 0x4c, 0x58, 0xcf,
    0xd0, 0xef, 0xaa, 0xfb, 0x43, 0x4d, 0x33, 0x85, 0x45, 0xf9, 0x02, 0x7f, 0x50, 0x3c, 0x9f, 0xa8,
    0x51, 0xa3, 0x40, 0x8f, 0x92, 0x9d, 0x38, 0xf5, 0xbc, 0xb6, 0xda, 0x21, 0x10, 0xff, 0xf3, 0xd2,
    0xcd, 0x0c, 0x13, 0xec, 0x5f, 0x97, 0x44, 0x17, 0xc4, 0xa7, 0x7e, 0x3d, 0x64, 0x5d, 0x19, 0x73,
    0x60, 0x81, 0x4f, 0xdc, 0x22, 0x2a, 0x90, 0x88, 0x46, 0xee, 0xb8, 0x14, 0xde, 0x5e, 0x0b, 0xdb,
    0xe0, 0x32, 0x3a, 0x0a, 0x49, 0x06, 0x24, 0x5c, 0xc2, 0xd3, 0xac, 0x62, 0x91, 0x95, 0xe4, 0x79,
    0xe7, 0xc8, 0x37, 0x6d, 0x8d, 0xd5, 0x4e, 0xa9, 0x6c, 0x56, 0xf4, 0xea, 0x65, 0x7a, 0xae, 0x08,
    0xba, 0x78, 0x25, 0x2e, 0x1c, 0xa6, 0xb4, 0xc6, 0xe8, 0xdd, 0x74, 0x1f, 0x4b, 0xbd, 0x8b, 0x8a,
    0x70, 0x3e, 0xb5, 0x66, 0x48, 0x03, 0xf6, 0x0e, 0x61, 0x35, 0x57, 0xb9, 0x86, 0xc1, 0x1d, 0x9e,
    0xe1, 0xf8, 0x98, 0x11, 0x69, 0xd9, 0x8e, 0x94, 0x9b, 0x1e, 0x87, 0xe9, 0xce, 0x55, 0x28, 0xdf,
    0x8c, 0xa1, 0x89, 0x0d, 0xbf, 0xe6, 0x42, 0x68, 0x41, 0x99, 0x2d, 0x0f, 0xb0, 0x54, 0xbb, 0x16]"

definition SubByte :: "byte \<Rightarrow> byte" where
  "SubByte b = sbox ! unat b"

definition xtime :: "byte \<Rightarrow> byte" where
  "xtime b = (if bit b 7 then push_bit 1 b XOR 0x1b else push_bit 1 b)"

definition SubBytes :: "bytes \<Rightarrow> bytes" where
  "SubBytes s = map SubByte s"

text \<open>The state is kept in input order (column-major): byte \<open>r + 4 * c\<close> is row \<open>r\<close> of column \<open>c\<close>.\<close>

definition ShiftRows :: "bytes \<Rightarrow> bytes" where
  "ShiftRows s = map (\<lambda>i. s ! i) [0, 5, 10, 15, 4, 9, 14, 3, 8, 13, 2, 7, 12, 1, 6, 11]"

definition MixColumn :: "byte \<Rightarrow> byte \<Rightarrow> byte \<Rightarrow> byte \<Rightarrow> bytes" where
  "MixColumn a0 a1 a2 a3 =
     [xtime a0 XOR (xtime a1 XOR a1) XOR a2 XOR a3,
      a0 XOR xtime a1 XOR (xtime a2 XOR a2) XOR a3,
      a0 XOR a1 XOR xtime a2 XOR (xtime a3 XOR a3),
      (xtime a0 XOR a0) XOR a1 XOR a2 XOR xtime a3]"

definition MixColumns :: "bytes \<Rightarrow> bytes" where
  "MixColumns s =
     concat (map (\<lambda>c. MixColumn (s ! (4 * c)) (s ! (4 * c + 1)) (s ! (4 * c + 2)) (s ! (4 * c + 3)))
       [0, 1, 2, 3])"

definition AddRoundKey :: "bytes \<Rightarrow> bytes \<Rightarrow> bytes" where
  "AddRoundKey s rk = map (\<lambda>i. s ! i XOR rk ! i) [0, 1, 2, 3, 4, 5, 6, 7, 8, 9, 10, 11, 12, 13, 14, 15]"

definition RotWord :: "bytes \<Rightarrow> bytes" where
  "RotWord t = [t ! 1, t ! 2, t ! 3, t ! 0]"

definition SubWord :: "bytes \<Rightarrow> bytes" where
  "SubWord t = map SubByte t"

text \<open>
  The key schedule. \<open>ws\<close> holds the words computed so far, newest first, so that
  \<open>hd ws\<close> is \<open>w[i-1]\<close> and \<open>ws ! (Nk - 1)\<close> is \<open>w[i-Nk]\<close>; \<open>rc\<close> is the round constant.
\<close>

fun KeyExpansion_loop :: "nat \<Rightarrow> nat \<Rightarrow> nat \<Rightarrow> byte \<Rightarrow> bytes list \<Rightarrow> bytes list" where
  "KeyExpansion_loop 0 Nk i rc ws = ws"
| "KeyExpansion_loop (Suc n) Nk i rc ws =
     (if i mod Nk = 0
      then KeyExpansion_loop n Nk (Suc i) (xtime rc)
             (map2 (XOR) (ws ! (Nk - 1)) (map2 (XOR) (SubWord (RotWord (hd ws))) [rc, 0, 0, 0]) # ws)
      else if 6 < Nk \<and> i mod Nk = 4
      then KeyExpansion_loop n Nk (Suc i) rc (map2 (XOR) (ws ! (Nk - 1)) (SubWord (hd ws)) # ws)
      else KeyExpansion_loop n Nk (Suc i) rc (map2 (XOR) (ws ! (Nk - 1)) (hd ws) # ws))"

fun chunks :: "nat \<Rightarrow> nat \<Rightarrow> 'a list \<Rightarrow> 'a list list" where
  "chunks 0 k xs = []"
| "chunks (Suc n) k xs = take k xs # chunks n k (drop k xs)"

text \<open>The round keys, one 16-byte block per round, for a key of \<open>4 * Nk\<close> bytes.\<close>

definition KeyExpansion :: "bytes \<Rightarrow> bytes list" where
  "KeyExpansion key =
     (let Nk = length key div 4
      in map concat (chunks (Nk + 7) 4
           (rev (KeyExpansion_loop (4 * (Nk + 7) - Nk) Nk Nk 1 (rev (chunks Nk 4 key))))))"

definition aes_round :: "bytes \<Rightarrow> bytes \<Rightarrow> bytes" where
  "aes_round s rk = AddRoundKey (MixColumns (ShiftRows (SubBytes s))) rk"

definition aes_final_round :: "bytes \<Rightarrow> bytes \<Rightarrow> bytes" where
  "aes_final_round s rk = AddRoundKey (ShiftRows (SubBytes s)) rk"

definition Cipher :: "bytes list \<Rightarrow> bytes \<Rightarrow> bytes" where
  "Cipher rks inp =
     aes_final_round (foldl aes_round (AddRoundKey inp (hd rks)) (butlast (tl rks))) (last rks)"

section \<open>Go standard library \<^verbatim>\<open>crypto/sha256\<close> and \<^verbatim>\<open>crypto/hmac\<close>\<close>

text \<open>
  SHA-256 belongs to Go's standard library, not to this repository: the model takes it as
  a parameter \<open>sha256\<close>, the function from a message to its digest. HMAC is built from
  it as RFC 2104 and \<^verbatim>\<open>crypto/hmac\<close> do, with the 64-byte block of SHA-256:
  \<^verbatim>\<open>hmac.New(sha256.New, key)\<close>, \<^verbatim>\<open>Write(msg)\<close>, \<^verbatim>\<open>Sum(nil)\<close>.
\<close>

definition hmac :: "(bytes \<Rightarrow> bytes) \<Rightarrow> bytes \<Rightarrow> bytes \<Rightarrow> bytes" where
  "hmac sha256 key msg =
     (let k0 = (if 64 < length key then sha256 key else key);
          k = k0 @ replicate (64 - length k0) 0
      in sha256 (map (\<lambda>b. b XOR 0x5c) k @ sha256 (map (\<lambda>b. b XOR 0x36) k @ msg)))"


section \<open>Package \<^verbatim>\<open>milenage\<close>\<close>

record Milenage =
  K :: bytes
  OP :: "bytes option"
  OPc :: "bytes option"
  RAND :: bytes
  SQN :: bytes
  AMF :: bytes
  MACA :: bytes
  MACS :: bytes
  RES :: bytes
  CK :: bytes
  IK :: bytes
  AK :: bytes
  AKS :: bytes
  RESStar :: bytes

text \<open>The contents of a slice that may be \<^verbatim>\<open>nil\<close>: a \<^verbatim>\<open>nil\<close> slice has length 0.\<close>

definition slice :: "bytes option \<Rightarrow> bytes" where
  "slice s = (case s of None \<Rightarrow> [] | Some b \<Rightarrow> b)"

text \<open>\<^verbatim>\<open>binary.BigEndian.PutUint64\<close> and \<^verbatim>\<open>PutUint16\<close>, as the bytes they write.\<close>

definition PutUint64 :: "64 word \<Rightarrow> bytes" where
  "PutUint64 v =
     [ucast (drop_bit 56 v), ucast (drop_bit 48 v), ucast (drop_bit 40 v), ucast (drop_bit 32 v),
      ucast (drop_bit 24 v), ucast (drop_bit 16 v), ucast (drop_bit 8 v), ucast v]"

definition PutUint16 :: "16 word \<Rightarrow> bytes" where
  "PutUint16 v = [ucast (drop_bit 8 v), ucast v]"

text \<open>\<^verbatim>\<open>binary.BigEndian.PutUint16(b[off:off+2], v)\<close>\<close>

definition put16 :: "bytes \<Rightarrow> nat \<Rightarrow> 16 word \<Rightarrow> bytes" where
  "put16 b off v = b[off := PutUint16 v ! 0, off + 1 := PutUint16 v ! 1]"

text \<open>
  \<^verbatim>\<open>copy(dst[lo:hi], src)\<close>: the built-in copies \<open>min (hi - lo) (len src)\<close> bytes. Every call
  site slices a buffer it has just made, with \<open>lo \<le> hi \<le> len dst\<close>.
\<close>

definition copy_to :: "bytes \<Rightarrow> nat \<Rightarrow> nat \<Rightarrow> bytes \<Rightarrow> bytes" where
  "copy_to dst lo hi src =
     (let n = min (hi - lo) (length src)
      in take lo dst @ take n src @ drop (lo + n) dst)"

definition New :: "bytes \<Rightarrow> bytes option \<Rightarrow> bytes \<Rightarrow> 64 word \<Rightarrow> 16 word \<Rightarrow> Milenage" where
  "New k op rand sqn amf =
     \<lparr>K = k, OP = op, OPc = None, RAND = rand,
      SQN = fold (\<lambda>i q. q[i := PutUint64 sqn ! (i + 2)]) [0..<6] (replicate 6 0),
      AMF = PutUint16 amf,
      MACA = replicate 8 0, MACS = replicate 8 0, RES = replicate 8 0,
      CK = replicate 16 0, IK = replicate 16 0, AK = replicate 6 0, AKS = replicate 6 0,
      RESStar = []\<rparr>"

definition NewWithOPc :: "bytes \<Rightarrow> bytes option \<Rightarrow> bytes \<Rightarrow> 64 word \<Rightarrow> 16 word \<Rightarrow> Milenage" where
  "NewWithOPc k opc rand sqn amf =
     \<lparr>K = k, OP = None, OPc = opc, RAND = rand,
      SQN = fold (\<lambda>i q. q[i := PutUint64 sqn ! (i + 2)]) [0..<6] (replicate 6 0),
      AMF = PutUint16 amf,
      MACA = replicate 8 0, MACS = replicate 8 0, RES = replicate 8 0,
      CK = replicate 16 0, IK = replicate 16 0, AK = replicate 6 0, AKS = replicate 6 0,
      RESStar = []\<rparr>"

definition validateLength :: "Milenage \<Rightarrow> error option" where
  "validateLength m =
     (if length (K m) \<noteq> 16 then Some (InvalidLength ''K'' 16 (length (K m)))
      else if OP m \<noteq> None \<and> length (slice (OP m)) \<noteq> 16
        then Some (InvalidLength ''OP'' 16 (length (slice (OP m))))
      else if OPc m \<noteq> None \<and> length (slice (OPc m)) \<noteq> 16
        then Some (InvalidLength ''OPc'' 16 (length (slice (OPc m))))
      else if length (RAND m) \<noteq> 16 then Some (InvalidLength ''RAND'' 16 (length (RAND m)))
      else if length (SQN m) \<noteq> 6 then Some (InvalidLength ''SQN'' 6 (length (SQN m)))
      else if length (AMF m) \<noteq> 2 then Some (InvalidLength ''AMF'' 2 (length (AMF m)))
      else if length (MACA m) \<noteq> 8 then Some (InvalidLength ''MACA'' 8 (length (MACA m)))
      else if length (MACS m) \<noteq> 8 then Some (InvalidLength ''MACS'' 8 (length (MACS m)))
      else if length (RES m) \<noteq> 8 then Some (InvalidLength ''RES'' 8 (length (RES m)))
      else if length (CK m) \<noteq> 16 then Some (InvalidLength ''CK'' 16 (length (CK m)))
      else if length (IK m) \<noteq> 16 then Some (InvalidLength ''IK'' 16 (length (IK m)))
      else if length (AK m) \<noteq> 6 then Some (InvalidLength ''AK'' 6 (length (AK m)))
      else if length (AKS m) \<noteq> 6 then Some (InvalidLength ''AKS'' 6 (length (AKS m)))
      else None)"

text \<open>
  \<^verbatim>\<open>xor\<close>: the result has the length of \<^verbatim>\<open>b1\<close> when \<^verbatim>\<open>len(b1)-len(b2) < 0\<close> and of
  \<^verbatim>\<open>b2\<close> otherwise.
\<close>

definition xor_bytes :: "bytes \<Rightarrow> bytes \<Rightarrow> bytes" where
  "xor_bytes b1 b2 =
     (let l = (if int (length b1) - int (length b2) < 0 then length b1 else length b2)
      in map (\<lambda>i. b1 ! i XOR b2 ! i) [0..<l])"

definition Xor :: "bytes \<Rightarrow> bytes \<Rightarrow> bytes" where
  "Xor b1 b2 = xor_bytes b1 b2"

text \<open>
  \<^verbatim>\<open>aes.NewCipher\<close> accepts keys of 16, 24 and 32 bytes; the cipher block is its round keys.
  \<^verbatim>\<open>Block.Encrypt(dst, src)\<close> panics unless both hold a full block, and writes the
  encryption of the first 16 bytes of \<^verbatim>\<open>src\<close> over the first 16 bytes of \<^verbatim>\<open>dst\<close>.
\<close>

definition aes_NewCipher :: "bytes \<Rightarrow> error + bytes list" where
  "aes_NewCipher key =
     (if length key = 16 \<or> length key = 24 \<or> length key = 32
      then Inr (KeyExpansion key) else Inl (KeySizeError (length key)))"

definition block_Encrypt :: "bytes list \<Rightarrow> bytes \<Rightarrow> bytes \<Rightarrow> error + bytes" where
  "block_Encrypt block dst src =
     (if length src < 16 \<or> length dst < 16 then Inl Panic
      else Inr (Cipher block (take 16 src) @ drop 16 dst))"

definition encrypt :: "bytes \<Rightarrow> bytes \<Rightarrow> error + bytes" where
  "encrypt key plain =
     (case aes_NewCipher key of
        Inl e \<Rightarrow> Inl e
      | Inr block \<Rightarrow> block_Encrypt block (replicate (length plain) 0) plain)"

text \<open>
  The copy loop of \<^verbatim>\<open>computeOPc\<close>: \<^verbatim>\<open>for i, b := range bytes { if i > len(m.OPc) { break };
  m.OPc[i] = b }\<close>. The store at \<open>i = len(m.OPc)\<close> is out of range and panics.
\<close>

fun copyOPc :: "nat \<Rightarrow> bytes \<Rightarrow> bytes \<Rightarrow> error option \<times> bytes" where
  "copyOPc i [] opc = (None, opc)"
| "copyOPc i (b # bs) opc =
     (if length opc < i then (None, opc)
      else if i < length opc then copyOPc (Suc i) bs (opc[i := b])
      else (Some Panic, opc))"

definition computeOPc :: "Milenage \<Rightarrow> error option \<times> Milenage" where
  "computeOPc m =
     (let m1 = m\<lparr>OPc := Some (replicate 16 0)\<rparr>
      in case aes_NewCipher (K m1) of
           Inl e \<Rightarrow> (Some e, m1)
         | Inr block \<Rightarrow>
             (case block_Encrypt block (replicate (length (slice (OP m1))) 0) (slice (OP m1)) of
                Inl e \<Rightarrow> (Some e, m1)
              | Inr cipherText \<Rightarrow>
                  (case copyOPc 0 (xor_bytes cipherText (slice (OP m1))) (slice (OPc m1)) of
                     (err, opc) \<Rightarrow> (err, m1\<lparr>OPc := Some opc\<rparr>))))"

definition ComputeOPc :: "bytes \<Rightarrow> bytes option \<Rightarrow> error + bytes" where
  "ComputeOPc k op =
     (case computeOPc (New k op (replicate 16 0) 0 0) of
        (Some e, m) \<Rightarrow> Inl e
      | (None, m) \<Rightarrow> Inr (slice (OPc m)))"

text \<open>\<^verbatim>\<open>if m.OPc == nil { if err := m.computeOPc(); err != nil { return ..., err } }\<close>\<close>

definition lazyOPc :: "Milenage \<Rightarrow> error option \<times> Milenage" where
  "lazyOPc m = (if OPc m = None then computeOPc m else (None, m))"

definition f1base :: "Milenage \<Rightarrow> bytes \<Rightarrow> bytes \<Rightarrow> (error + bytes) \<times> Milenage" where
  "f1base m sqn amf =
     (case validateLength m of
        Some e \<Rightarrow> (Inl e, m)
      | None \<Rightarrow>
     (case lazyOPc m of
        (Some e, m1) \<Rightarrow> (Inl e, m1)
      | (None, m1) \<Rightarrow>
     (let opc = slice (OPc m1);
          rijndaelInput = fold (\<lambda>i r. r[i := RAND m1 ! i XOR opc ! i]) [0..<16] (replicate 16 0)
      in case encrypt (K m1) rijndaelInput of
           Inl e \<Rightarrow> (Inl e, m1)
         | Inr temp \<Rightarrow>
     if length sqn < 6 \<or> length amf < 2 then (Inl Panic, m1)
     else
     (let in1 = fold (\<lambda>i a. a[i := sqn ! i, i + 8 := sqn ! i]) [0..<6] (replicate 16 0);
          in1 = fold (\<lambda>i a. a[i + 6 := amf ! i, i + 14 := amf ! i]) [0..<2] in1;
          rijndaelInput = fold (\<lambda>i r. r[(i + 8) mod 16 := in1 ! i XOR opc ! i]) [0..<16] rijndaelInput;
          rijndaelInput = fold (\<lambda>i r. r[i := r ! i XOR temp ! i]) [0..<16] rijndaelInput
      in case encrypt (K m1) rijndaelInput of
           Inl e \<Rightarrow> (Inl e, m1)
         | Inr out \<Rightarrow> (Inr (xor_bytes out opc), m1)))))"

definition F1 :: "Milenage \<Rightarrow> (error + bytes) \<times> Milenage" where
  "F1 m =
     (case f1base m (SQN m) (AMF m) of
        (Inl e, m1) \<Rightarrow> (Inl e, m1)
      | (Inr mac, m1) \<Rightarrow> (Inr (take 8 mac), m1\<lparr>MACA := take 8 mac\<rparr>))"

definition F1Star :: "Milenage \<Rightarrow> bytes \<Rightarrow> bytes \<Rightarrow> (error + bytes) \<times> Milenage" where
  "F1Star m sqn amf =
     (case f1base m sqn amf of
        (Inl e, m1) \<Rightarrow> (Inl e, m1)
      | (Inr mac, m1) \<Rightarrow> (Inr (drop 8 mac), m1\<lparr>MACS := drop 8 mac\<rparr>))"

definition F2345 :: "Milenage \<Rightarrow> (error + bytes \<times> bytes \<times> bytes \<times> bytes) \<times> Milenage" where
  "F2345 m =
     (case validateLength m of
        Some e \<Rightarrow> (Inl e, m)
      | None \<Rightarrow>
     (case lazyOPc m of
        (Some e, m1) \<Rightarrow> (Inl e, m1)
      | (None, m1) \<Rightarrow>
     (let opc = slice (OPc m1);
          rijndaelInput = fold (\<lambda>i r. r[i := RAND m1 ! i XOR opc ! i]) [0..<16] (replicate 16 0)
      in case encrypt (K m1) rijndaelInput of
           Inl e \<Rightarrow> (Inl e, m1)
         | Inr temp \<Rightarrow>
     (let rijndaelInput = fold (\<lambda>i r. r[i := temp ! i XOR opc ! i]) [0..<16] rijndaelInput;
          rijndaelInput = rijndaelInput[15 := rijndaelInput ! 15 XOR 1]
      in case encrypt (K m1) rijndaelInput of
           Inl e \<Rightarrow> (Inl e, m1)
         | Inr out \<Rightarrow>
     (let tmp = xor_bytes out opc;
          res = drop 8 tmp;
          ak = take 6 tmp;
          rijndaelInput = fold (\<lambda>i r. r[(i + 12) mod 16 := temp ! i XOR opc ! i]) [0..<16] rijndaelInput;
          rijndaelInput = rijndaelInput[15 := rijndaelInput ! 15 XOR 2]
      in case encrypt (K m1) rijndaelInput of
           Inl e \<Rightarrow> (Inl e, m1)
         | Inr out \<Rightarrow>
     (let ck = xor_bytes out opc;
          rijndaelInput = fold (\<lambda>i r. r[(i + 8) mod 16 := temp ! i XOR opc ! i]) [0..<16] rijndaelInput;
          rijndaelInput = rijndaelInput[15 := rijndaelInput ! 15 XOR 4]
      in case encrypt (K m1) rijndaelInput of
           Inl e \<Rightarrow> (Inl e, m1)
         | Inr out \<Rightarrow>
     (let ik = xor_bytes out opc
      in (Inr (res, ck, ik, ak), m1\<lparr>RES := res, CK := ck, IK := ik, AK := ak\<rparr>))))))))"

definition F5Star :: "Milenage \<Rightarrow> (error + bytes) \<times> Milenage" where
  "F5Star m =
     (case validateLength m of
        Some e \<Rightarrow> (Inl e, m)
      | None \<Rightarrow>
     (case lazyOPc m of
        (Some e, m1) \<Rightarrow> (Inl e, m1)
      | (None, m1) \<Rightarrow>
     (let opc = slice (OPc m1);
          rijndaelInput = fold (\<lambda>i r. r[i := RAND m1 ! i XOR opc ! i]) [0..<16] (replicate 16 0)
      in case encrypt (K m1) rijndaelInput of
           Inl e \<Rightarrow> (Inl e, m1)
         | Inr tmp \<Rightarrow>
     (let rijndaelInput = fold (\<lambda>i r. r[(i + 4) mod 16 := tmp ! i XOR opc ! i]) [0..<16] rijndaelInput;
          rijndaelInput = rijndaelInput[15 := rijndaelInput ! 15 XOR 8]
      in case encrypt (K m1) rijndaelInput of
           Inl e \<Rightarrow> (Inl e, m1)
         | Inr out \<Rightarrow>
     (let aks = take 6 (xor_bytes out opc)
      in (Inr aks, m1\<lparr>AKS := aks\<rparr>))))))"

text \<open>A Go string is a sequence of bytes; \<^verbatim>\<open>[]byte(s)\<close> is that sequence.\<close>

definition string_bytes :: "string \<Rightarrow> bytes" where
  "string_bytes s = map of_char s"

definition ComputeRESStar :: "(bytes \<Rightarrow> bytes) \<Rightarrow> Milenage \<Rightarrow> string \<Rightarrow> string \<Rightarrow> (error + bytes) \<times> Milenage" where
  "ComputeRESStar sha256 m mcc mnc =
     (case validateLength m of
        Some e \<Rightarrow> (Inl e, m)
      | None \<Rightarrow>
     if length mcc \<noteq> 3 then (Inl (InvalidMCC mcc), m)
     else
     (case (if length mnc = 2 then Inr (''0'' @ mnc)
            else if length mnc \<noteq> 3 then Inl (InvalidMNC mnc) else Inr mnc) of
        Inl e \<Rightarrow> (Inl e, m)
      | Inr mnc \<Rightarrow>
     (let snn = string_bytes (''5G:mnc'' @ mnc @ ''.mcc'' @ mcc @ ''.3gppnetwork.org'')
      in if length snn \<noteq> 32 then (Inl (BuildSNNFailed snn), m)
         else
     (let b = (replicate 63 0)[0 := 0x6b];
          b = copy_to b 1 33 snn;
          b = put16 b 33 (of_nat (length snn));
          b = copy_to b 35 51 (RAND m);
          b = put16 b 51 (of_nat (length (RAND m)));
          b = copy_to b 53 61 (RES m);
          b = put16 b 61 (of_nat (length (RES m)));
          k = copy_to (copy_to (replicate 32 0) 0 16 (CK m)) 16 32 (IK m);
          out = hmac sha256 k b
      in (Inr (drop (length out - 16) out), m)))))"

definition GenerateAUTN :: "Milenage \<Rightarrow> (error + bytes) \<times> Milenage" where
  "GenerateAUTN m =
     (case validateLength m of
        Some e \<Rightarrow> (Inl e, m)
      | None \<Rightarrow>
     (let autn = replicate 16 0;
          autn = copy_to autn 0 6 (xor_bytes (SQN m) (AK m));
          autn = copy_to autn 6 8 (AMF m);
          autn = copy_to autn 8 16 (MACA m)
      in (Inr autn, m)))"

definition GenerateAUTS :: "Milenage \<Rightarrow> (error + bytes) \<times> Milenage" where
  "GenerateAUTS m =
     (case validateLength m of
        Some e \<Rightarrow> (Inl e, m)
      | None \<Rightarrow>
     (case F1Star m (SQN m) [0x00, 0x00] of
        (Inl e, m1) \<Rightarrow> (Inl e, m1)
      | (Inr macS, m1) \<Rightarrow>
     (case F5Star m1 of
        (Inl e, m2) \<Rightarrow> (Inl e, m2)
      | (Inr aks, m2) \<Rightarrow>
     (let auts = replicate 14 0;
          auts = copy_to auts 0 6 (xor_bytes (SQN m2) aks);
          auts = copy_to auts 6 14 macS
      in (Inr auts, m2)))))"

section \<open>Package \<^verbatim>\<open>aka\<close>\<close>

record Aka =
  mil :: Milenage
  SNN :: bytes
  SUPI :: bytes
  KAUSF :: bytes
  KSEAF :: bytes
  KAMF :: bytes
  HXRESStar :: bytes

definition aka_New :: "Milenage \<Rightarrow> string \<Rightarrow> string \<Rightarrow> Aka" where
  "aka_New m snn supi =
     \<lparr>mil = m, SNN = string_bytes snn, SUPI = string_bytes supi,
      KAUSF = replicate 32 0, KSEAF = replicate 32 0, KAMF = replicate 32 0, HXRESStar = []\<rparr>"

definition byteArrayLen2B :: "bytes \<Rightarrow> bytes" where
  "byteArrayLen2B b = PutUint16 (of_nat (length b))"

definition ComputeKAUSF :: "(bytes \<Rightarrow> bytes) \<Rightarrow> Aka \<Rightarrow> (error + bytes) \<times> Aka" where
  "ComputeKAUSF sha256 a =
     (let sqnXorAk = Xor (SQN (mil a)) (AK (mil a));
          sqnXorAkLen = byteArrayLen2B sqnXorAk;
          sNNLen = byteArrayLen2B (SNN a);
          inputString = [0x6a] @ SNN a @ sNNLen @ sqnXorAk @ sqnXorAkLen;
          inputKey = CK (mil a) @ IK (mil a);
          kausf = hmac sha256 inputKey inputString
      in (Inr kausf, a\<lparr>KAUSF := kausf\<rparr>))"

definition ComputeKSEAF :: "(bytes \<Rightarrow> bytes) \<Rightarrow> Aka \<Rightarrow> (error + bytes) \<times> Aka" where
  "ComputeKSEAF sha256 a =
     (let sNNLen = byteArrayLen2B (SNN a);
          inputString = [0x6c] @ SNN a @ sNNLen;
          inputKey = KAUSF a;
          kseaf = hmac sha256 inputKey inputString
      in (Inr kseaf, a\<lparr>KSEAF := kseaf\<rparr>))"

definition ComputeKAMF :: "(bytes \<Rightarrow> bytes) \<Rightarrow> Aka \<Rightarrow> (error + bytes) \<times> Aka" where
  "ComputeKAMF sha256 a =
     (let sUPILen = byteArrayLen2B (SUPI a);
          abba = [0x00, 0x00];
          inputString = [0x6d] @ SUPI a @ sUPILen @ abba @ [0x00, 0x02];
          inputKey = KAUSF a;
          kamf = hmac sha256 inputKey inputString
      in (Inr kamf, a\<lparr>KAMF := kamf\<rparr>))"

definition ComputeHXRESStar :: "(bytes \<Rightarrow> bytes) \<Rightarrow> Aka \<Rightarrow> (error + bytes) \<times> Aka" where
  "ComputeHXRESStar sha256 a =
     (let inputString = RAND (mil a) @ RESStar (mil a);
          hash = sha256 inputString;
          hxresstar = drop (length hash - 16) hash
      in (Inr hxresstar, a\<lparr>HXRESStar := hxresstar\<rparr>))"

section \<open>The driver\<close>

text \<open>
  What \<^verbatim>\<open>main\<close> derives and prints, in the order of its trace. The flags arrive decoded:
  \<^verbatim>\<open>hex.DecodeString\<close> and \<^verbatim>\<open>strconv.ParseUint\<close> are outside the model, and SHA-256 is
  the parameter \<open>sha256\<close>.
\<close>

record trace =
  tr_OPc :: bytes
  tr_MACA :: bytes
  tr_CK :: bytes
  tr_IK :: bytes
  tr_AK :: bytes
  tr_xRES :: bytes
  tr_xRESStar :: bytes
  tr_AUTN :: bytes
  tr_KAUSF :: bytes
  tr_HXRESStar :: bytes
  tr_KSEAF :: bytes
  tr_KAMF :: bytes

definition main :: "(bytes \<Rightarrow> bytes) \<Rightarrow> string \<Rightarrow> bytes \<Rightarrow> bytes \<Rightarrow> 64 word \<Rightarrow> 16 word \<Rightarrow> bytes \<Rightarrow> error + trace" where
  "main sha256 imsis k op sqn amf rand =
     (case ComputeOPc k (Some op) of
        Inl e \<Rightarrow> Inl e
      | Inr opc \<Rightarrow>
     if length imsis < 5 then Inl Panic
     else
     (let mcc = take 3 imsis;
          mnc = take 2 (drop 3 imsis);
          m = NewWithOPc k (Some opc) rand sqn amf
      in case F1 m of
           (Inl e, m) \<Rightarrow> Inl e
         | (Inr maca, m) \<Rightarrow>
     (case F2345 m of
        (Inl e, m) \<Rightarrow> Inl e
      | (Inr (xres, ck, ik, ak), m) \<Rightarrow>
     (case ComputeRESStar sha256 m (take 3 imsis) (take 2 (drop 3 imsis)) of
        (Inl e, m) \<Rightarrow> Inl e
      | (Inr xRESStar, m) \<Rightarrow>
     (case GenerateAUTN (m\<lparr>RESStar := xRESStar\<rparr>) of
        (Inl e, m) \<Rightarrow> Inl e
      | (Inr autn, m) \<Rightarrow>
     (case ComputeKAUSF sha256 (aka_New m (''5G:mnc'' @ mnc @ ''.mcc'' @ mcc @ ''.3gppnetwork.org'') imsis) of
        (Inl e, a) \<Rightarrow> Inl e
      | (Inr kausf, a) \<Rightarrow>
     (case ComputeHXRESStar sha256 a of
        (Inl e, a) \<Rightarrow> Inl e
      | (Inr hxresstar, a) \<Rightarrow>
     (case ComputeKSEAF sha256 a of
        (Inl e, a) \<Rightarrow> Inl e
      | (Inr kseaf, a) \<Rightarrow>
     (case ComputeKAMF sha256 a of
        (Inl e, a) \<Rightarrow> Inl e
      | (Inr kamf, a) \<Rightarrow>
          Inr \<lparr>tr_OPc = opc, tr_MACA = maca, tr_CK = ck, tr_IK = ik, tr_AK = ak,
               tr_xRES = xres, tr_xRESStar = xRESStar, tr_AUTN = autn, tr_KAUSF = kausf,
               tr_HXRESStar = hxresstar, tr_KSEAF = kseaf, tr_KAMF = kamf\<rparr>)))))))))"

section \<open>The formulas of the specification\<close>

text \<open>
  The quantities the specification names, written from its words, to be compared with
  what the code computes. \<open>AES128 k p\<close> is AES-128-Encrypt(k, p).
\<close>

definition AES128 :: "bytes \<Rightarrow> bytes \<Rightarrow> bytes" where
  "AES128 k p = Cipher (KeyExpansion k) p"

definition spec_OPc :: "Milenage \<Rightarrow> bytes" where
  "spec_OPc m =
     (case OPc m of
        Some c \<Rightarrow> c
      | None \<Rightarrow> map2 (XOR) (AES128 (K m) (slice (OP m))) (slice (OP m)))"

definition spec_TEMP :: "bytes \<Rightarrow> bytes \<Rightarrow> bytes \<Rightarrow> bytes" where
  "spec_TEMP k rand opc = AES128 k (map2 (XOR) rand opc)"

definition spec_place :: "nat \<Rightarrow> bytes \<Rightarrow> bytes" where
  "spec_place r x = map (\<lambda>j. x ! ((j + (16 - r)) mod 16)) [0..<16]"

definition spec_flip :: "byte \<Rightarrow> bytes \<Rightarrow> bytes" where
  "spec_flip c x = x[15 := x ! 15 XOR c]"

definition spec_OUT2 :: "bytes \<Rightarrow> bytes \<Rightarrow> bytes \<Rightarrow> bytes" where
  "spec_OUT2 k rand opc =
     map2 (XOR) (AES128 k (spec_flip 1 (map2 (XOR) (spec_TEMP k rand opc) opc))) opc"

definition spec_OUT3 :: "bytes \<Rightarrow> bytes \<Rightarrow> bytes \<Rightarrow> bytes" where
  "spec_OUT3 k rand opc =
     map2 (XOR) (AES128 k (spec_flip 2 (spec_place 12 (map2 (XOR) (spec_TEMP k rand opc) opc)))) opc"

definition spec_OUT4 :: "bytes \<Rightarrow> bytes \<Rightarrow> bytes \<Rightarrow> bytes" where
  "spec_OUT4 k rand opc =
     map2 (XOR) (AES128 k (spec_flip 4 (spec_place 8 (map2 (XOR) (spec_TEMP k rand opc) opc)))) opc"

definition spec_OUT5 :: "bytes \<Rightarrow> bytes \<Rightarrow> bytes \<Rightarrow> bytes" where
  "spec_OUT5 k rand opc =
     map2 (XOR) (AES128 k (spec_flip 8 (spec_place 4 (map2 (XOR) (spec_TEMP k rand opc) opc)))) opc"

definition spec_IN1 :: "bytes \<Rightarrow> bytes \<Rightarrow> bytes" where
  "spec_IN1 sqn amf = sqn @ amf @ sqn @ amf"

definition spec_OUT1 :: "bytes \<Rightarrow> bytes \<Rightarrow> bytes \<Rightarrow> bytes \<Rightarrow> bytes \<Rightarrow> bytes" where
  "spec_OUT1 k rand opc sqn amf =
     map2 (XOR)
       (AES128 k (map2 (XOR) (spec_place 8 (map2 (XOR) (spec_IN1 sqn amf) opc)) (spec_TEMP k rand opc)))
       opc"

definition table_lengths :: "Milenage \<Rightarrow> bool" where
  "table_lengths m \<longleftrightarrow>
     length (K m) = 16 \<and> (OP m = None \<or> length (slice (OP m)) = 16) \<and>
     (OPc m = None \<or> length (slice (OPc m)) = 16) \<and> length (RAND m) = 16 \<and>
     length (CK m) = 16 \<and> length (IK m) = 16 \<and>
     length (SQN m) = 6 \<and> length (AK m) = 6 \<and> length (AKS m) = 6 \<and>
     length (AMF m) = 2 \<and>
     length (MACA m) = 8 \<and> length (MACS m) = 8 \<and> length (RES m) = 8"

definition bad_aka :: Aka where
  "bad_aka = aka_New ((New (replicate 16 0) None (replicate 16 0) 0 0)\<lparr>CK := []\<rparr>) [] []"

definition nil_instance :: Milenage where
  "nil_instance = New (replicate 16 0) None (replicate 16 0) 0 0"

definition spec_SNN :: "string \<Rightarrow> string \<Rightarrow> bytes" where
  "spec_SNN mcc mnc =
     string_bytes (''5G:mnc'' @ (if length mnc = 2 then ''0'' @ mnc else mnc) @ ''.mcc'' @ mcc @
                   ''.3gppnetwork.org'')"

definition spec_S :: "bytes \<Rightarrow> bytes \<Rightarrow> bytes \<Rightarrow> bytes" where
  "spec_S snn rand res = [0x6b] @ snn @ [0x00, 0x20] @ rand @ [0x00, 0x10] @ res @ [0x00, 0x08]"
section \<open>Auxiliary lemmas\<close>

lemma xor_bytes_map2: "xor_bytes a b = map2 (XOR) a b"
  by (rule nth_equalityI) (auto simp: xor_bytes_def Let_def split: if_splits)

lemma length_xor_bytes: "length (xor_bytes a b) = min (length a) (length b)"
  by (simp add: xor_bytes_map2)

lemma length_Cipher: "length (Cipher rks p) = 16"
  by (simp add: Cipher_def aes_final_round_def AddRoundKey_def)

lemma length_AES128: "length (AES128 k p) = 16"
  by (simp add: AES128_def length_Cipher)

lemma encrypt_16:
  "length k = 16 \<Longrightarrow> length p = 16 \<Longrightarrow> encrypt k p = Inr (AES128 k p)"
  by (simp add: encrypt_def aes_NewCipher_def block_Encrypt_def AES128_def)

lemma copyOPc_fits:
  "i + length xs \<le> length opc \<Longrightarrow>
   copyOPc i xs opc = (None, take i opc @ xs @ drop (i + length xs) opc)"
proof (induction xs arbitrary: i opc)
  case Nil
  then show ?case by simp
next
  case (Cons x xs)
  then have "i < length opc" by simp
  with Cons show ?case
    by (simp add: upd_conv_take_nth_drop take_Suc_conv_app_nth add.commute)
qed

lemma computeOPc_16:
  assumes "length (K m) = 16" "OP m = Some op" "length op = 16"
  shows "computeOPc m = (None, m\<lparr>OPc := Some (map2 (XOR) (AES128 (K m) op) op)\<rparr>)"
  using assms
  by (simp add: computeOPc_def Let_def aes_NewCipher_def block_Encrypt_def slice_def
      copyOPc_fits xor_bytes_map2 AES128_def length_Cipher)

lemma upt_16: "[0..<16] = [0, 1, 2, 3, 4, 5, 6, 7, 8, 9, 10, 11, 12, 13, 14, 15]"
  by (simp add: upt_conv_Cons)

lemma upt_6: "[0..<6] = [0, 1, 2, 3, 4, 5]"
  by (simp add: upt_conv_Cons)

lemma upt_2: "[0..<2] = [0, 1]"
  by (simp add: upt_conv_Cons)

lemma list_update_Cons_numeral: "(x # xs)[numeral k := v] = x # xs[pred_numeral k := v]"
  by (simp add: numeral_eq_Suc)

lemma replicate_Cons_numeral: "replicate (numeral k) x = x # replicate (pred_numeral k) x"
  by (simp add: numeral_eq_Suc)

lemma list16:
  assumes "length xs = 16"
  shows "xs = [xs ! 0, xs ! 1, xs ! 2, xs ! 3, xs ! 4, xs ! 5, xs ! 6, xs ! 7,
               xs ! 8, xs ! 9, xs ! 10, xs ! 11, xs ! 12, xs ! 13, xs ! 14, xs ! 15]"
proof -
  have "map ((!) xs) [0..<16] = xs"
    using map_nth [of xs] assms by simp
  then show ?thesis
    by (simp add: upt_16)
qed

lemma list16_obtain:
  assumes "length xs = 16"
  obtains a0 a1 a2 a3 a4 a5 a6 a7 a8 a9 a10 a11 a12 a13 a14 a15
  where "xs = [a0, a1, a2, a3, a4, a5, a6, a7, a8, a9, a10, a11, a12, a13, a14, a15]"
  by (rule that [OF list16 [OF assms]])

lemma fold_set16:
  assumes "length r = 16"
  shows "fold (\<lambda>i r. r[i := f i]) [0..<16] r = map f [0..<16]"
proof -
  obtain a0 a1 a2 a3 a4 a5 a6 a7 a8 a9 a10 a11 a12 a13 a14 a15
    where "r = [a0, a1, a2, a3, a4, a5, a6, a7, a8, a9, a10, a11, a12, a13, a14, a15]"
    using assms by (rule list16_obtain)
  then show ?thesis
    by (simp add: upt_16 list_update_Cons_numeral)
qed

lemma fold_rot16:
  assumes "length r = 16"
  shows "fold (\<lambda>i r. r[(i + 12) mod 16 := f i]) [0..<16] r = map (\<lambda>j. f ((j + 4) mod 16)) [0..<16]"
    and "fold (\<lambda>i r. r[(i + 8) mod 16 := f i]) [0..<16] r = map (\<lambda>j. f ((j + 8) mod 16)) [0..<16]"
    and "fold (\<lambda>i r. r[(i + 4) mod 16 := f i]) [0..<16] r = map (\<lambda>j. f ((j + 12) mod 16)) [0..<16]"
proof -
  obtain a0 a1 a2 a3 a4 a5 a6 a7 a8 a9 a10 a11 a12 a13 a14 a15
    where r: "r = [a0, a1, a2, a3, a4, a5, a6, a7, a8, a9, a10, a11, a12, a13, a14, a15]"
    using assms by (rule list16_obtain)
  show "fold (\<lambda>i r. r[(i + 12) mod 16 := f i]) [0..<16] r = map (\<lambda>j. f ((j + 4) mod 16)) [0..<16]"
    by (simp add: r upt_16 list_update_Cons_numeral)
  show "fold (\<lambda>i r. r[(i + 8) mod 16 := f i]) [0..<16] r = map (\<lambda>j. f ((j + 8) mod 16)) [0..<16]"
    by (simp add: r upt_16 list_update_Cons_numeral)
  show "fold (\<lambda>i r. r[(i + 4) mod 16 := f i]) [0..<16] r = map (\<lambda>j. f ((j + 12) mod 16)) [0..<16]"
    by (simp add: r upt_16 list_update_Cons_numeral)
qed

lemma fold_xor16:
  assumes "length r = 16"
  shows "fold (\<lambda>i r. r[i := r ! i XOR t ! i]) [0..<16] r = map (\<lambda>i. r ! i XOR t ! i) [0..<16]"
proof -
  obtain a0 a1 a2 a3 a4 a5 a6 a7 a8 a9 a10 a11 a12 a13 a14 a15
    where "r = [a0, a1, a2, a3, a4, a5, a6, a7, a8, a9, a10, a11, a12, a13, a14, a15]"
    using assms by (rule list16_obtain)
  then show ?thesis
    by (simp add: upt_16 list_update_Cons_numeral)
qed

lemma in1_loops:
  "fold (\<lambda>i a. a[i + 6 := amf ! i, i + 14 := amf ! i]) [0..<2]
     (fold (\<lambda>i a. a[i := sqn ! i, i + 8 := sqn ! i]) [0..<6] (replicate 16 0)) =
   [sqn ! 0, sqn ! 1, sqn ! 2, sqn ! 3, sqn ! 4, sqn ! 5, amf ! 0, amf ! 1,
    sqn ! 0, sqn ! 1, sqn ! 2, sqn ! 3, sqn ! 4, sqn ! 5, amf ! 0, amf ! 1]"
  by (simp add: upt_6 upt_2 list_update_Cons_numeral replicate_Cons_numeral)

lemma validateLength_None:
  "validateLength m = None \<longleftrightarrow>
     length (K m) = 16 \<and> (OP m = None \<or> length (slice (OP m)) = 16) \<and>
     (OPc m = None \<or> length (slice (OPc m)) = 16) \<and> length (RAND m) = 16 \<and>
     length (SQN m) = 6 \<and> length (AMF m) = 2 \<and> length (MACA m) = 8 \<and>
     length (MACS m) = 8 \<and> length (RES m) = 8 \<and> length (CK m) = 16 \<and>
     length (IK m) = 16 \<and> length (AK m) = 6 \<and> length (AKS m) = 6"
  by (simp add: validateLength_def)

lemma map_nth_xor16:
  fixes a b :: bytes
  shows "length a = 16 \<Longrightarrow> length b = 16 \<Longrightarrow> map (\<lambda>i. a ! i XOR b ! i) [0..<16] = map2 (XOR) a b"
  using xor_bytes_map2 [of a b] by (simp add: xor_bytes_def)

lemma fold_set_xor16:
  fixes a b r :: bytes
  shows "length a = 16 \<Longrightarrow> length b = 16 \<Longrightarrow> length r = 16 \<Longrightarrow>
   fold (\<lambda>i r. r[i := a ! i XOR b ! i]) [0..<16] r = map2 (XOR) a b"
  by (simp add: fold_set16 map_nth_xor16)

lemma fold_xor_xor16:
  fixes r t :: bytes
  shows "length r = 16 \<Longrightarrow> length t = 16 \<Longrightarrow>
   fold (\<lambda>i r. r[i := r ! i XOR t ! i]) [0..<16] r = map2 (XOR) r t"
  by (simp add: fold_xor16 map_nth_xor16)

lemma fold_place_xor16:
  fixes a b r :: bytes
  assumes "length a = 16" "length b = 16" "length r = 16"
  shows "fold (\<lambda>i r. r[(i + 12) mod 16 := a ! i XOR b ! i]) [0..<16] r = spec_place 12 (map2 (XOR) a b)"
    and "fold (\<lambda>i r. r[(i + 8) mod 16 := a ! i XOR b ! i]) [0..<16] r = spec_place 8 (map2 (XOR) a b)"
    and "fold (\<lambda>i r. r[(i + 4) mod 16 := a ! i XOR b ! i]) [0..<16] r = spec_place 4 (map2 (XOR) a b)"
  using assms by (simp_all add: fold_rot16 spec_place_def)

lemma place_index:
  assumes "r \<le> 16" "i < 16"
  shows "((i + r) mod 16 + (16 - r)) mod 16 = (i::nat)"
proof (cases "i + r < 16")
  case True
  with assms show ?thesis by simp
next
  case False
  with assms have "(i + r) mod 16 = i + r - 16"
    by (simp add: mod_if)
  with False assms show ?thesis by simp
qed

lemma spec_place_nth:
  assumes "r \<le> 16" "i < 16"
  shows "spec_place r x ! ((i + r) mod 16) = x ! i"
  by (simp add: spec_place_def place_index [OF assms])

lemma length_spec_place: "length (spec_place r x) = 16"
  by (simp add: spec_place_def)

lemma length_spec_flip: "length (spec_flip c x) = length x"
  by (simp add: spec_flip_def)

lemma length_spec_OPc:
  assumes "validateLength m = None" "OPc m \<noteq> None \<or> OP m \<noteq> None"
  shows "length (spec_OPc m) = 16"
  using assms
  by (auto simp: validateLength_None spec_OPc_def slice_def length_AES128 split: option.splits)

lemma lazyOPc_valid:
  assumes "validateLength m = None" "OPc m \<noteq> None \<or> OP m \<noteq> None"
  shows "lazyOPc m = (None, m\<lparr>OPc := Some (spec_OPc m)\<rparr>)"
proof (cases "OPc m")
  case None
  with assms obtain op where "OP m = Some op" "length op = 16" "length (K m) = 16"
    by (auto simp: validateLength_None slice_def)
  with None show ?thesis
    by (simp add: lazyOPc_def computeOPc_16 spec_OPc_def slice_def)
next
  case (Some c)
  then show ?thesis
    by (simp add: lazyOPc_def spec_OPc_def)
qed

lemma F2345_closed:
  assumes "validateLength m = None" "OPc m \<noteq> None \<or> OP m \<noteq> None"
  shows "F2345 m =
     (Inr (drop 8 (spec_OUT2 (K m) (RAND m) (spec_OPc m)),
           spec_OUT3 (K m) (RAND m) (spec_OPc m),
           spec_OUT4 (K m) (RAND m) (spec_OPc m),
           take 6 (spec_OUT2 (K m) (RAND m) (spec_OPc m))),
      m\<lparr>OPc := Some (spec_OPc m),
        RES := drop 8 (spec_OUT2 (K m) (RAND m) (spec_OPc m)),
        CK := spec_OUT3 (K m) (RAND m) (spec_OPc m),
        IK := spec_OUT4 (K m) (RAND m) (spec_OPc m),
        AK := take 6 (spec_OUT2 (K m) (RAND m) (spec_OPc m))\<rparr>)"
proof -
  have len: "length (K m) = 16" "length (RAND m) = 16" "length (spec_OPc m) = 16"
    using assms length_spec_OPc by (simp_all add: validateLength_None)
  show ?thesis
    using assms(1) len
    by (simp add: F2345_def lazyOPc_valid [OF assms] Let_def slice_def fold_set_xor16
        fold_place_xor16 encrypt_16 length_AES128 xor_bytes_map2 length_spec_place
        spec_OUT2_def spec_OUT3_def spec_OUT4_def spec_TEMP_def spec_flip_def)
qed

lemma F5Star_closed:
  assumes "validateLength m = None" "OPc m \<noteq> None \<or> OP m \<noteq> None"
  shows "F5Star m =
     (Inr (take 6 (spec_OUT5 (K m) (RAND m) (spec_OPc m))),
      m\<lparr>OPc := Some (spec_OPc m), AKS := take 6 (spec_OUT5 (K m) (RAND m) (spec_OPc m))\<rparr>)"
proof -
  have len: "length (K m) = 16" "length (RAND m) = 16" "length (spec_OPc m) = 16"
    using assms length_spec_OPc by (simp_all add: validateLength_None)
  show ?thesis
    using assms(1) len
    by (simp add: F5Star_def lazyOPc_valid [OF assms] Let_def slice_def fold_set_xor16
        fold_place_xor16 encrypt_16 length_AES128 xor_bytes_map2 length_spec_place
        spec_OUT5_def spec_TEMP_def spec_flip_def)
qed

lemma take6_nth:
  assumes "6 \<le> length xs"
  shows "take 6 xs = [xs ! 0, xs ! 1, xs ! 2, xs ! 3, xs ! 4, xs ! 5]"
proof -
  have "map ((!) (take 6 xs)) [0..<6] = take 6 xs"
    using map_nth [of "take 6 xs"] assms by (simp add: min_absorb2)
  then show ?thesis
    by (simp add: upt_6)
qed

lemma take2_nth:
  assumes "2 \<le> length xs"
  shows "take 2 xs = [xs ! 0, xs ! 1]"
proof -
  have "map ((!) (take 2 xs)) [0..<2] = take 2 xs"
    using map_nth [of "take 2 xs"] assms by (simp add: min_absorb2)
  then show ?thesis
    by (simp add: upt_2)
qed

lemma in1_spec:
  assumes "6 \<le> length sqn" "2 \<le> length amf"
  shows "fold (\<lambda>i a. a[i + 6 := amf ! i, i + 14 := amf ! i]) [0..<2]
     (fold (\<lambda>i a. a[i := sqn ! i, i + 8 := sqn ! i]) [0..<6] (replicate 16 0)) =
   spec_IN1 (take 6 sqn) (take 2 amf)"
proof -
  have "spec_IN1 (take 6 sqn) (take 2 amf) =
    [sqn ! 0, sqn ! 1, sqn ! 2, sqn ! 3, sqn ! 4, sqn ! 5, amf ! 0, amf ! 1,
     sqn ! 0, sqn ! 1, sqn ! 2, sqn ! 3, sqn ! 4, sqn ! 5, amf ! 0, amf ! 1]"
    unfolding spec_IN1_def take6_nth [OF assms(1)] take2_nth [OF assms(2)] by simp
  then show ?thesis
    by (simp only: in1_loops)
qed

lemma f1base_closed:
  assumes "validateLength m = None" "OPc m \<noteq> None \<or> OP m \<noteq> None"
    and "6 \<le> length sqn" "2 \<le> length amf"
  shows "f1base m sqn amf =
     (Inr (spec_OUT1 (K m) (RAND m) (spec_OPc m) (take 6 sqn) (take 2 amf)),
      m\<lparr>OPc := Some (spec_OPc m)\<rparr>)"
proof -
  have len: "length (K m) = 16" "length (RAND m) = 16" "length (spec_OPc m) = 16"
    using assms length_spec_OPc by (simp_all add: validateLength_None)
  have in1: "length (spec_IN1 (take 6 sqn) (take 2 amf)) = 16"
    using assms(3,4) by (simp add: spec_IN1_def)
  show ?thesis
    using assms(1,3,4) len in1
    by (simp add: f1base_def lazyOPc_valid [OF assms(1,2)] Let_def slice_def fold_set_xor16
        in1_spec
        fold_place_xor16 fold_xor_xor16 encrypt_16 length_AES128 xor_bytes_map2 length_spec_place
        spec_OUT1_def spec_TEMP_def)
qed

lemma length_fold_update:
  "length (fold (\<lambda>i q. q[g i q := h i q]) is q) = length q"
  by (induction "is" arbitrary: q) simp_all

lemma length_PutUint16: "length (PutUint16 v) = 2"
  by (simp add: PutUint16_def)

lemma validateLength_New:
  assumes "length k = 16" "length op = 16" "length rand = 16"
  shows "validateLength (New k (Some op) rand sqn amf) = None"
    and "validateLength (NewWithOPc k (Some op) rand sqn amf) = None"
  using assms
  by (simp_all add: validateLength_None New_def NewWithOPc_def slice_def length_fold_update
      length_PutUint16)

lemma map2_xor_cancel:
  fixes a b :: bytes
  shows "length a = length b \<Longrightarrow> map2 (XOR) (map2 (XOR) a b) b = a"
  by (induction a b rule: list_induct2) (simp_all add: xor.assoc)

lemma copy_to_zeros:
  assumes "length pre = lo" "length src = hi - lo" "hi - lo \<le> n"
  shows "copy_to (pre @ replicate n 0) lo hi src = pre @ src @ replicate (n - (hi - lo)) 0"
  using assms by (simp add: copy_to_def Let_def)

lemma put16_zeros:
  assumes "length pre = off" "2 \<le> n"
  shows "put16 (pre @ replicate n 0) off v = pre @ PutUint16 v @ replicate (n - 2) 0"
proof -
  obtain n' where n: "n = Suc (Suc n')"
    using assms(2) by (metis Suc_le_D numeral_2_eq_2 Suc_le_mono)
  show ?thesis
    using assms(1) by (simp add: put16_def n list_update_append PutUint16_def)
qed


lemma New_fields:
  "K (New k op rand sqn amf) = k" "OP (New k op rand sqn amf) = op"
  "OPc (New k op rand sqn amf) = None" "RAND (New k op rand sqn amf) = rand"
  by (simp_all add: New_def)

lemma len_byte_hi:
  "(ucast (drop_bit 8 (of_nat n :: 16 word)) :: byte) = of_nat (n div 256)"
proof -
  have d: "n div 256 = drop_bit 8 n"
    by (simp add: drop_bit_eq_div)
  show ?thesis
    unfolding d by (rule bit_word_eqI) (auto simp add: bit_simps)
qed

lemma len_byte_lo:
  "(ucast (of_nat n :: 16 word) :: byte) = of_nat (n mod 256)"
proof -
  have d: "n mod 256 = take_bit 8 n"
    by (simp add: take_bit_eq_mod)
  show ?thesis
    unfolding d by (rule bit_word_eqI) (auto simp add: bit_simps)
qed

lemma byteArrayLen2B_eq:
  "byteArrayLen2B b = [of_nat (length b div 256), of_nat (length b mod 256)]"
  by (simp add: byteArrayLen2B_def PutUint16_def len_byte_hi len_byte_lo)

lemma be16_value:
  assumes "n < 65536"
  shows "256 * unat (of_nat (n div 256) :: byte) + unat (of_nat (n mod 256) :: byte) = n"
proof -
  have "n div 256 < 256"
    using assms by simp
  then have "unat (of_nat (n div 256) :: byte) = n div 256"
    by (simp add: unat_of_nat)
  moreover have "unat (of_nat (n mod 256) :: byte) = n mod 256"
    by (simp add: unat_of_nat)
  ultimately show ?thesis
    by simp
qed

lemma validateLength_table: "validateLength m = None \<longleftrightarrow> table_lengths m"
  by (auto simp add: validateLength_None table_lengths_def)

lemma validateLength_error:
  "validateLength m = Some e \<Longrightarrow> \<exists>f n l. e = InvalidLength f n l"
  by (auto simp add: validateLength_def split: if_splits)

lemma fail_fast:
  assumes "validateLength m = Some e"
  shows "F1 m = (Inl e, m)" "F1Star m sqn amf = (Inl e, m)" "F2345 m = (Inl e, m)"
    "F5Star m = (Inl e, m)" "ComputeRESStar h m mcc mnc = (Inl e, m)"
    "GenerateAUTN m = (Inl e, m)" "GenerateAUTS m = (Inl e, m)"
  using assms
  by (simp_all add: F1_def F1Star_def f1base_def F2345_def F5Star_def ComputeRESStar_def
      GenerateAUTN_def GenerateAUTS_def)

lemma PutUint64_0: "PutUint64 0 = [0, 0, 0, 0, 0, 0, 0, 0]"
  by (simp add: PutUint64_def)

lemma PutUint16_0: "PutUint16 0 = [0, 0]"
  by (simp add: PutUint16_def)

lemma SQN_New_0: "SQN (New k op rand 0 amf) = [0, 0, 0, 0, 0, 0]"
  by (simp add: New_def PutUint64_0 upt_6 replicate_Cons_numeral list_update_Cons_numeral)

lemma f1base_short:
  assumes "validateLength m = None" "OPc m \<noteq> None \<or> OP m \<noteq> None"
    and "length sqn < 6 \<or> length amf < 2"
  shows "f1base m sqn amf = (Inl Panic, m\<lparr>OPc := Some (spec_OPc m)\<rparr>)"
proof -
  have len: "length (K m) = 16" "length (RAND m) = 16" "length (spec_OPc m) = 16"
    using assms length_spec_OPc by (simp_all add: validateLength_None)
  show ?thesis
    using assms(1,3) len
    by (simp add: f1base_def lazyOPc_valid [OF assms(1,2)] Let_def slice_def fold_set_xor16
        encrypt_16)
qed

lemma F1_closed:
  assumes "validateLength m = None" "OPc m \<noteq> None \<or> OP m \<noteq> None"
  shows "F1 m =
     (Inr (take 8 (spec_OUT1 (K m) (RAND m) (spec_OPc m) (SQN m) (AMF m))),
      m\<lparr>OPc := Some (spec_OPc m),
        MACA := take 8 (spec_OUT1 (K m) (RAND m) (spec_OPc m) (SQN m) (AMF m))\<rparr>)"
proof -
  have len: "length (SQN m) = 6" "length (AMF m) = 2"
    using assms by (simp_all add: validateLength_None)
  show ?thesis
    using f1base_closed [OF assms, of "SQN m" "AMF m"] len by (simp add: F1_def)
qed

lemma F1Star_closed:
  assumes "validateLength m = None" "OPc m \<noteq> None \<or> OP m \<noteq> None"
    and "6 \<le> length sqn" "2 \<le> length amf"
  shows "F1Star m sqn amf =
     (Inr (drop 8 (spec_OUT1 (K m) (RAND m) (spec_OPc m) (take 6 sqn) (take 2 amf))),
      m\<lparr>OPc := Some (spec_OPc m),
        MACS := drop 8 (spec_OUT1 (K m) (RAND m) (spec_OPc m) (take 6 sqn) (take 2 amf))\<rparr>)"
  using f1base_closed [OF assms] by (simp add: F1Star_def)

lemma F1Star_short:
  assumes "validateLength m = None" "OPc m \<noteq> None \<or> OP m \<noteq> None"
    and "length sqn < 6 \<or> length amf < 2"
  shows "F1Star m sqn amf = (Inl Panic, m\<lparr>OPc := Some (spec_OPc m)\<rparr>)"
  using f1base_short [OF assms] by (simp add: F1Star_def)

lemma length_spec_OUT1: "length opc = 16 \<Longrightarrow> length (spec_OUT1 k rand opc sqn amf) = 16"
  by (simp add: spec_OUT1_def length_AES128)

lemma length_spec_OUT5: "length opc = 16 \<Longrightarrow> length (spec_OUT5 k rand opc) = 16"
  by (simp add: spec_OUT5_def length_AES128)

lemma GenerateAUTS_closed:
  assumes "validateLength m = None" "OPc m \<noteq> None \<or> OP m \<noteq> None"
  shows "fst (GenerateAUTS m) =
     Inr (copy_to (copy_to (replicate 14 0) 0 6
            (xor_bytes (SQN m) (take 6 (spec_OUT5 (K m) (RAND m) (spec_OPc m)))))
          6 14 (drop 8 (spec_OUT1 (K m) (RAND m) (spec_OPc m) (SQN m) [0x00, 0x00])))"
proof -
  let ?c = "spec_OPc m"
  let ?macS = "drop 8 (spec_OUT1 (K m) (RAND m) ?c (SQN m) [0x00, 0x00])"
  let ?m1 = "m\<lparr>OPc := Some ?c, MACS := ?macS\<rparr>"
  have len: "length (SQN m) = 6" "length ?c = 16"
    using assms length_spec_OPc by (simp_all add: validateLength_None)
  have f1: "F1Star m (SQN m) [0x00, 0x00] = (Inr ?macS, ?m1)"
    using F1Star_closed [OF assms, of "SQN m" "[0x00, 0x00]"] len by simp
  have v1: "validateLength ?m1 = None"
    using assms(1) len by (simp add: validateLength_None slice_def length_spec_OUT1)
  have o1: "OPc ?m1 \<noteq> None \<or> OP ?m1 \<noteq> None"
    by simp
  have c1: "spec_OPc ?m1 = ?c"
    by (simp add: spec_OPc_def)
  have f5: "F5Star ?m1 =
      (Inr (take 6 (spec_OUT5 (K m) (RAND m) ?c)),
       ?m1\<lparr>OPc := Some ?c, AKS := take 6 (spec_OUT5 (K m) (RAND m) ?c)\<rparr>)"
    using F5Star_closed [OF v1 o1] by (simp add: c1)
  show ?thesis
    by (simp add: GenerateAUTS_def assms(1) f1 f5 Let_def)
qed

lemma res_input:
  assumes "length snn = 32" "length rand = 16" "length res = 8"
  shows "put16 (copy_to (put16 (copy_to (put16 (copy_to ((replicate 63 0)[0 := 0x6b]) 1 33 snn)
           33 (of_nat (length snn))) 35 51 rand) 51 (of_nat (length rand))) 53 61 res)
           61 (of_nat (length res)) = spec_S snn rand res"
proof -
  have p: "PutUint16 32 = [0x00, 0x20]" "PutUint16 16 = [0x00, 0x10]" "PutUint16 8 = [0x00, 0x08]"
    by (simp_all add: PutUint16_def)
  have b0: "(replicate 63 0)[0 := 0x6b] = [0x6b] @ replicate 62 (0::byte)"
    by (simp add: replicate_Cons_numeral)
  have b1: "copy_to ([0x6b] @ replicate 62 0) 1 33 snn = ([0x6b] @ snn) @ replicate 30 0"
    using copy_to_zeros [of "[0x6b]" 1 snn 33 62] assms by simp
  have b2: "put16 (([0x6b] @ snn) @ replicate 30 0) 33 32 =
              ([0x6b] @ snn @ [0x00, 0x20]) @ replicate 28 0"
    using put16_zeros [of "[0x6b] @ snn" 33 30 32] assms by (simp add: p)
  have b3: "copy_to (([0x6b] @ snn @ [0x00, 0x20]) @ replicate 28 0) 35 51 rand =
              ([0x6b] @ snn @ [0x00, 0x20] @ rand) @ replicate 12 0"
    using copy_to_zeros [of "[0x6b] @ snn @ [0x00, 0x20]" 35 rand 51 28] assms by simp
  have b4: "put16 (([0x6b] @ snn @ [0x00, 0x20] @ rand) @ replicate 12 0) 51 16 =
              ([0x6b] @ snn @ [0x00, 0x20] @ rand @ [0x00, 0x10]) @ replicate 10 0"
    using put16_zeros [of "[0x6b] @ snn @ [0x00, 0x20] @ rand" 51 12 16] assms by (simp add: p)
  have b5: "copy_to (([0x6b] @ snn @ [0x00, 0x20] @ rand @ [0x00, 0x10]) @ replicate 10 0) 53 61 res =
              ([0x6b] @ snn @ [0x00, 0x20] @ rand @ [0x00, 0x10] @ res) @ replicate 2 0"
    using copy_to_zeros [of "[0x6b] @ snn @ [0x00, 0x20] @ rand @ [0x00, 0x10]" 53 res 61 10] assms
    by simp
  have b6: "put16 (([0x6b] @ snn @ [0x00, 0x20] @ rand @ [0x00, 0x10] @ res) @ replicate 2 0) 61 8 =
              [0x6b] @ snn @ [0x00, 0x20] @ rand @ [0x00, 0x10] @ res @ [0x00, 0x08]"
    using put16_zeros [of "[0x6b] @ snn @ [0x00, 0x20] @ rand @ [0x00, 0x10] @ res" 61 2 8] assms
    by (simp add: p)
  have n: "(of_nat (length snn) :: 16 word) = 32" "(of_nat (length rand) :: 16 word) = 16"
    "(of_nat (length res) :: 16 word) = 8"
    using assms by simp_all
  show ?thesis
    unfolding n b0 b1 b2 b3 b4 b5 b6 spec_S_def ..
qed

lemma res_key:
  assumes "length ck = 16" "length ik = 16"
  shows "copy_to (copy_to (replicate 32 0) 0 16 ck) 16 32 ik = ck @ ik"
proof -
  have "copy_to (replicate 32 0) 0 16 ck = ck @ replicate 16 0"
    using copy_to_zeros [of "[]" 0 ck 16 32] assms by simp
  moreover have "copy_to (ck @ replicate 16 0) 16 32 ik = ck @ ik"
    using copy_to_zeros [of ck 16 ik 32 16] assms by simp
  ultimately show ?thesis
    by simp
qed

lemma length_spec_SNN:
  assumes "length mcc = 3" "length mnc = 2 \<or> length mnc = 3"
  shows "length (spec_SNN mcc mnc) = 32"
  using assms by (auto simp add: spec_SNN_def string_bytes_def)

lemma length_hmac: "(\<And>x. length (h x) = 32) \<Longrightarrow> length (hmac h k m) = 32"
  by (simp add: hmac_def Let_def)

lemma ComputeRESStar_closed:
  assumes "validateLength m = None" "length mcc = 3" "length mnc = 2 \<or> length mnc = 3"
  shows "ComputeRESStar h m mcc mnc =
     (Inr (drop (length (hmac h (CK m @ IK m) (spec_S (spec_SNN mcc mnc) (RAND m) (RES m))) - 16)
             (hmac h (CK m @ IK m) (spec_S (spec_SNN mcc mnc) (RAND m) (RES m)))), m)"
proof -
  have len: "length (RAND m) = 16" "length (RES m) = 8" "length (CK m) = 16" "length (IK m) = 16"
    using assms(1) by (simp_all add: validateLength_None)
  have snn: "length (spec_SNN mcc mnc) = 32"
    using assms(2,3) by (rule length_spec_SNN)
  have c: "length mcc \<noteq> 3 \<longleftrightarrow> False" "length (spec_SNN mcc mnc) \<noteq> 32 \<longleftrightarrow> False"
    using assms(2) snn by simp_all
  show ?thesis
  proof (cases "length mnc = 2")
    case True
    have s: "string_bytes (''5G:mnc'' @ (''0'' @ mnc) @ ''.mcc'' @ mcc @ ''.3gppnetwork.org'') =
               spec_SNN mcc mnc"
      using True by (simp add: spec_SNN_def)
    have d: "length mnc = 2 \<longleftrightarrow> True"
      using True by simp
    show ?thesis
      unfolding ComputeRESStar_def Let_def
      by (simp only: assms(1) option.case c d if_True if_False sum.case s
          res_input [OF snn len(1,2)] res_key [OF len(3,4)])
  next
    case False
    with assms(3) have t: "length mnc = 3" by simp
    have s: "string_bytes (''5G:mnc'' @ mnc @ ''.mcc'' @ mcc @ ''.3gppnetwork.org'') =
               spec_SNN mcc mnc"
      using False by (simp add: spec_SNN_def)
    have d: "length mnc = 2 \<longleftrightarrow> False" "length mnc \<noteq> 3 \<longleftrightarrow> False"
      using False t by simp_all
    show ?thesis
      unfolding ComputeRESStar_def Let_def
      by (simp only: assms(1) option.case c d if_True if_False sum.case s
          res_input [OF snn len(1,2)] res_key [OF len(3,4)])
  qed
qed

lemma ComputeRESStar_error:
  assumes "validateLength m = None" "length mcc \<noteq> 3 \<or> (length mnc \<noteq> 2 \<and> length mnc \<noteq> 3)"
  shows "fst (ComputeRESStar h m mcc mnc) = Inl (InvalidMCC mcc) \<or>
         fst (ComputeRESStar h m mcc mnc) = Inl (InvalidMNC mnc)"
  using assms by (auto simp add: ComputeRESStar_def)

lemma ComputeOPc_closed:
  assumes "length k = 16" "length op = 16"
  shows "ComputeOPc k (Some op) = Inr (map2 (XOR) (AES128 k op) op)"
  using assms
  by (simp add: ComputeOPc_def computeOPc_16 [where op = op] New_fields slice_def)

lemma spec_place_places:
  "i < 16 \<Longrightarrow> spec_place 12 x ! ((i + 12) mod 16) = x ! i"
  "i < 16 \<Longrightarrow> spec_place 8 x ! ((i + 8) mod 16) = x ! i"
  "i < 16 \<Longrightarrow> spec_place 4 x ! ((i + 4) mod 16) = x ! i"
  by (simp_all add: spec_place_nth)

lemma NewWithOPc_fields:
  "K (NewWithOPc k opc rand sqn amf) = k" "OP (NewWithOPc k opc rand sqn amf) = None"
  "OPc (NewWithOPc k opc rand sqn amf) = opc" "RAND (NewWithOPc k opc rand sqn amf) = rand"
  by (simp_all add: NewWithOPc_def)

lemma New_other_fields:
  "SQN (New k op rand sqn amf) = SQN (NewWithOPc k None rand sqn amf)"
  "AMF (New k op rand sqn amf) = AMF (NewWithOPc k None rand sqn amf)"
  "AK (New k op rand sqn amf) = AK (NewWithOPc k None rand sqn amf)"
  "MACA (New k op rand sqn amf) = MACA (NewWithOPc k None rand sqn amf)"
  "RES (New k op rand sqn amf) = RES (NewWithOPc k None rand sqn amf)"
  "CK (New k op rand sqn amf) = CK (NewWithOPc k None rand sqn amf)"
  "IK (New k op rand sqn amf) = IK (NewWithOPc k None rand sqn amf)"
  "SQN (NewWithOPc k (Some c) rand sqn amf) = SQN (NewWithOPc k None rand sqn amf)"
  "AMF (NewWithOPc k (Some c) rand sqn amf) = AMF (NewWithOPc k None rand sqn amf)"
  "AK (NewWithOPc k (Some c) rand sqn amf) = AK (NewWithOPc k None rand sqn amf)"
  "MACA (NewWithOPc k (Some c) rand sqn amf) = MACA (NewWithOPc k None rand sqn amf)"
  "RES (NewWithOPc k (Some c) rand sqn amf) = RES (NewWithOPc k None rand sqn amf)"
  "CK (NewWithOPc k (Some c) rand sqn amf) = CK (NewWithOPc k None rand sqn amf)"
  "IK (NewWithOPc k (Some c) rand sqn amf) = IK (NewWithOPc k None rand sqn amf)"
  by (simp_all add: New_def NewWithOPc_def)
section \<open>The claims\<close>

text \<open>
  Claim C2. For every Milenage instance that passes length validation and has OPc present
  or OP present (so that OPc can be derived), \<^verbatim>\<open>F2345\<close> returns (res, ck, ik, ak) where,
  with TEMP = AES-128(K, RAND xor OPc): ak is bytes 0..5 and res is bytes 8..15 of
  OUT2 = AES(K, (TEMP xor OPc) with byte 15 xored with 0x01) xor OPc; ck is
  AES(K, R3) xor OPc where R3 places (TEMP xor OPc)[i] at index (i+12) mod 16 and then
  xors byte 15 with 0x02; ik is AES(K, R4) xor OPc where R4 places (TEMP xor OPc)[i] at
  index (i+8) mod 16 and then xors byte 15 with 0x04; and the instance's RES, CK, IK and AK
  fields are set to these values. The last two conjuncts say that \<open>spec_place\<close> is the
  placement the claim describes.
\<close>

theorem F2345_spec:
  assumes "validateLength m = None" and "OPc m \<noteq> None \<or> OP m \<noteq> None"
  shows "fst (F2345 m) =
           Inr (drop 8 (spec_OUT2 (K m) (RAND m) (spec_OPc m)),
                spec_OUT3 (K m) (RAND m) (spec_OPc m),
                spec_OUT4 (K m) (RAND m) (spec_OPc m),
                take 6 (spec_OUT2 (K m) (RAND m) (spec_OPc m))) \<and>
         RES (snd (F2345 m)) = drop 8 (spec_OUT2 (K m) (RAND m) (spec_OPc m)) \<and>
         CK (snd (F2345 m)) = spec_OUT3 (K m) (RAND m) (spec_OPc m) \<and>
         IK (snd (F2345 m)) = spec_OUT4 (K m) (RAND m) (spec_OPc m) \<and>
         AK (snd (F2345 m)) = take 6 (spec_OUT2 (K m) (RAND m) (spec_OPc m)) \<and>
         (\<forall>x. \<forall>i<16. spec_place 12 x ! ((i + 12) mod 16) = x ! i) \<and>
         (\<forall>x. \<forall>i<16. spec_place 8 x ! ((i + 8) mod 16) = x ! i)"
  by (simp add: F2345_closed [OF assms] spec_place_places)

theorem F2345_spec_witness:
  "validateLength (New (replicate 16 1) (Some (replicate 16 2)) (replicate 16 3) 4 5) = None \<and>
   OP (New (replicate 16 1) (Some (replicate 16 2)) (replicate 16 3) 4 5) = Some (replicate 16 2) \<and>
   CK (snd (F2345 (New (replicate 16 1) (Some (replicate 16 2)) (replicate 16 3) 4 5))) =
     spec_OUT3 (replicate 16 1) (replicate 16 3) (spec_OPc (New (replicate 16 1) (Some (replicate 16 2)) (replicate 16 3) 4 5))"
proof -
  have v: "validateLength (New (replicate 16 1) (Some (replicate 16 2)) (replicate 16 3) 4 5) = None"
    by (simp add: validateLength_New)
  have o: "OPc (New (replicate 16 1) (Some (replicate 16 2)) (replicate 16 3) 4 5) \<noteq> None \<or> OP (New (replicate 16 1) (Some (replicate 16 2)) (replicate 16 3) 4 5) \<noteq> None"
    by (simp add: New_fields)
  show ?thesis
    using v F2345_spec [OF v o] by (simp add: New_fields)
qed

text \<open>
  Claim C3, as amended. For every Milenage instance that passes length validation and has
  OPc present or OP present, and every 6-byte sqn and 2-byte amf: \<^verbatim>\<open>F1\<close> returns and
  stores in MACA the first 8 bytes, and \<^verbatim>\<open>F1Star\<close> returns and stores in MACS the last
  8 bytes, of OUT1 = AES(K, rot64(IN1 xor OPc) xor TEMP) xor OPc, where
  TEMP = AES(K, RAND xor OPc), IN1 is sqn, amf, sqn, amf, and rot64 places input index i at
  output index (i+8) mod 16; \<^verbatim>\<open>F1\<close> uses the instance's own SQN and AMF.
\<close>

theorem F1_F1Star_spec:
  assumes "validateLength m = None" and "OPc m \<noteq> None \<or> OP m \<noteq> None"
    and "length sqn = 6" and "length amf = 2"
  shows "fst (F1 m) = Inr (take 8 (spec_OUT1 (K m) (RAND m) (spec_OPc m) (SQN m) (AMF m))) \<and>
         MACA (snd (F1 m)) = take 8 (spec_OUT1 (K m) (RAND m) (spec_OPc m) (SQN m) (AMF m)) \<and>
         fst (F1Star m sqn amf) = Inr (drop 8 (spec_OUT1 (K m) (RAND m) (spec_OPc m) sqn amf)) \<and>
         MACS (snd (F1Star m sqn amf)) = drop 8 (spec_OUT1 (K m) (RAND m) (spec_OPc m) sqn amf) \<and>
         (\<forall>x. \<forall>i<16. spec_place 8 x ! ((i + 8) mod 16) = x ! i)"
  using assms(3,4) F1Star_closed [OF assms(1,2), of sqn amf]
  by (simp add: F1_closed [OF assms(1,2)] spec_place_places)

theorem F1_F1Star_spec_witness:
  "validateLength (New (replicate 16 1) (Some (replicate 16 2)) (replicate 16 3) 4 5) = None \<and>
   OP (New (replicate 16 1) (Some (replicate 16 2)) (replicate 16 3) 4 5) = Some (replicate 16 2) \<and>
   length (replicate 6 (7::byte)) = 6 \<and> length (replicate 2 (8::byte)) = 2 \<and>
   fst (F1Star (New (replicate 16 1) (Some (replicate 16 2)) (replicate 16 3) 4 5) (replicate 6 7) (replicate 2 8)) =
     Inr (drop 8 (spec_OUT1 (replicate 16 1) (replicate 16 3) (spec_OPc (New (replicate 16 1) (Some (replicate 16 2)) (replicate 16 3) 4 5))
            (replicate 6 7) (replicate 2 8)))"
proof -
  have v: "validateLength (New (replicate 16 1) (Some (replicate 16 2)) (replicate 16 3) 4 5) = None"
    by (simp add: validateLength_New)
  have o: "OPc (New (replicate 16 1) (Some (replicate 16 2)) (replicate 16 3) 4 5) \<noteq> None \<or> OP (New (replicate 16 1) (Some (replicate 16 2)) (replicate 16 3) 4 5) \<noteq> None"
    by (simp add: New_fields)
  show ?thesis
    using v F1_F1Star_spec [OF v o, of "replicate 6 7" "replicate 2 8"] by (simp add: New_fields)
qed

text \<open>
  Claim C3 as stated fails: an instance built by \<^verbatim>\<open>New\<close> with a \<^verbatim>\<open>nil\<close> OP has neither OP
  nor OPc, passes length validation, and \<^verbatim>\<open>F1\<close> panics in \<^verbatim>\<open>computeOPc\<close>, where the
  cipher is handed an empty block.
\<close>

theorem F1_nil_counterexample:
  "validateLength nil_instance = None \<and> fst (F1 nil_instance) = Inl Panic"
proof -
  have v: "validateLength nil_instance = None"
    by (simp add: nil_instance_def validateLength_None New_def length_fold_update length_PutUint16)
  have o: "OPc nil_instance = None" "OP nil_instance = None" "length (K nil_instance) = 16"
    by (simp_all add: nil_instance_def New_fields)
  have c: "computeOPc nil_instance = (Some Panic, nil_instance\<lparr>OPc := Some (replicate 16 0)\<rparr>)"
    using o by (simp add: computeOPc_def Let_def aes_NewCipher_def block_Encrypt_def slice_def)
  have l: "lazyOPc nil_instance = (Some Panic, nil_instance\<lparr>OPc := Some (replicate 16 0)\<rparr>)"
    by (simp add: lazyOPc_def o c)
  have "f1base nil_instance (SQN nil_instance) (AMF nil_instance) =
          (Inl Panic, nil_instance\<lparr>OPc := Some (replicate 16 0)\<rparr>)"
    unfolding f1base_def by (simp only: v l option.case prod.case)
  then show ?thesis
    using v by (simp add: F1_def)
qed

text \<open>
  Claim C4. For every Milenage instance that passes length validation,
  \<^verbatim>\<open>ComputeRESStar\<close> returns an error exactly when the length of mcc is not 3 or the
  length of mnc is neither 2 nor 3. Otherwise it succeeds and returns the last 16 bytes of
  the HMAC, keyed with CK followed by IK, of the 63-byte string
  0x6B, SNN, 0x0020, RAND, 0x0010, RES, 0x0008, where SNN is
  \<^verbatim>\<open>5G:mnc<mnc3>.mcc<mcc>.3gppnetwork.org\<close> and a 2-character mnc is padded with a leading
  \<^verbatim>\<open>0\<close>; this SNN is 32 bytes long, and the SNN-length failure is never returned. The
  hash under the HMAC is the parameter \<open>sha256\<close>, of which only the 32-byte digest length
  is used.
\<close>

theorem ComputeRESStar_spec:
  assumes "validateLength m = None" and "\<And>x. length (sha256 x) = 32"
  shows "((\<exists>e. fst (ComputeRESStar sha256 m mcc mnc) = Inl e) \<longleftrightarrow>
            length mcc \<noteq> 3 \<or> (length mnc \<noteq> 2 \<and> length mnc \<noteq> 3)) \<and>
         (length mcc = 3 \<and> (length mnc = 2 \<or> length mnc = 3) \<longrightarrow>
            fst (ComputeRESStar sha256 m mcc mnc) =
              Inr (drop 16 (hmac sha256 (CK m @ IK m)
                     (spec_S (spec_SNN mcc mnc) (RAND m) (RES m)))) \<and>
            length (spec_SNN mcc mnc) = 32 \<and>
            length (spec_S (spec_SNN mcc mnc) (RAND m) (RES m)) = 63 \<and>
            length (drop 16 (hmac sha256 (CK m @ IK m)
                     (spec_S (spec_SNN mcc mnc) (RAND m) (RES m)))) = 16) \<and>
         (\<forall>s. fst (ComputeRESStar sha256 m mcc mnc) \<noteq> Inl (BuildSNNFailed s))"
proof (cases "length mcc = 3 \<and> (length mnc = 2 \<or> length mnc = 3)")
  case True
  have len: "length (RAND m) = 16" "length (RES m) = 8"
    using assms(1) by (simp_all add: validateLength_None)
  have h: "length (hmac sha256 (CK m @ IK m) (spec_S (spec_SNN mcc mnc) (RAND m) (RES m))) = 32"
    using assms(2) by (rule length_hmac)
  from True have c: "ComputeRESStar sha256 m mcc mnc =
     (Inr (drop 16 (hmac sha256 (CK m @ IK m) (spec_S (spec_SNN mcc mnc) (RAND m) (RES m)))), m)"
    using ComputeRESStar_closed [OF assms(1), of mcc mnc sha256] h by simp
  from True have snn: "length (spec_SNN mcc mnc) = 32"
    using length_spec_SNN by simp
  show ?thesis
    using True len snn h by (auto simp add: c spec_S_def)
next
  case False
  then have "length mcc \<noteq> 3 \<or> (length mnc \<noteq> 2 \<and> length mnc \<noteq> 3)"
    by auto
  from ComputeRESStar_error [OF assms(1) this, of sha256] False show ?thesis
    by auto
qed

theorem ComputeRESStar_spec_witness:
  "validateLength (New (replicate 16 1) (Some (replicate 16 2)) (replicate 16 3) 4 5) = None \<and>
   (\<forall>x::bytes. length (replicate 32 (0::byte)) = 32) \<and>
   length ''001'' = 3 \<and> length ''01'' = 2 \<and>
   length (spec_SNN ''001'' ''01'') = 32 \<and>
   fst (ComputeRESStar (\<lambda>x. replicate 32 0) (New (replicate 16 1) (Some (replicate 16 2)) (replicate 16 3) 4 5) ''001'' ''01'') =
     Inr (drop 16 (hmac (\<lambda>x. replicate 32 0) (CK (New (replicate 16 1) (Some (replicate 16 2)) (replicate 16 3) 4 5) @ IK (New (replicate 16 1) (Some (replicate 16 2)) (replicate 16 3) 4 5))
            (spec_S (spec_SNN ''001'' ''01'') (RAND (New (replicate 16 1) (Some (replicate 16 2)) (replicate 16 3) 4 5)) (RES (New (replicate 16 1) (Some (replicate 16 2)) (replicate 16 3) 4 5)))))"
proof -
  have v: "validateLength (New (replicate 16 1) (Some (replicate 16 2)) (replicate 16 3) 4 5) = None"
    by (simp add: validateLength_New)
  show ?thesis
    using v ComputeRESStar_spec [OF v, of "\<lambda>x. replicate 32 0" "''001''" "''01''"] by simp
qed

text \<open>
  Claim C5, as amended. Every Milenage method that derives a value (\<^verbatim>\<open>F1\<close>, \<^verbatim>\<open>F1Star\<close>,
  \<^verbatim>\<open>F2345\<close>, \<^verbatim>\<open>F5Star\<close>, \<^verbatim>\<open>ComputeRESStar\<close>, \<^verbatim>\<open>GenerateAUTN\<close>, \<^verbatim>\<open>GenerateAUTS\<close>) fails fast
  with an invalid-length error, produces no result and leaves the instance as it is,
  whenever a field of the instance has a byte-length different from the data-model table
  (K, RAND, CK, IK 16 B; OP and OPc 16 B when present; SQN, AK, AKS 6 B; AMF 2 B;
  MACA, MACS, RES 8 B). The AKA-layer derivations \<^verbatim>\<open>ComputeKAUSF\<close>, \<^verbatim>\<open>ComputeKSEAF\<close>,
  \<^verbatim>\<open>ComputeKAMF\<close> and \<^verbatim>\<open>ComputeHXRESStar\<close> check no length and always succeed.
\<close>

theorem length_validation:
  "(\<not> table_lengths m \<longrightarrow>
      (\<exists>f n l. F1 m = (Inl (InvalidLength f n l), m) \<and>
               F1Star m sqn amf = (Inl (InvalidLength f n l), m) \<and>
               F2345 m = (Inl (InvalidLength f n l), m) \<and>
               F5Star m = (Inl (InvalidLength f n l), m) \<and>
               ComputeRESStar sha256 m mcc mnc = (Inl (InvalidLength f n l), m) \<and>
               GenerateAUTN m = (Inl (InvalidLength f n l), m) \<and>
               GenerateAUTS m = (Inl (InvalidLength f n l), m))) \<and>
   (\<exists>r. fst (ComputeKAUSF sha256 a) = Inr r) \<and> (\<exists>r. fst (ComputeKSEAF sha256 a) = Inr r) \<and>
   (\<exists>r. fst (ComputeKAMF sha256 a) = Inr r) \<and> (\<exists>r. fst (ComputeHXRESStar sha256 a) = Inr r)"
proof -
  have "\<exists>f n l. F1 m = (Inl (InvalidLength f n l), m) \<and>
               F1Star m sqn amf = (Inl (InvalidLength f n l), m) \<and>
               F2345 m = (Inl (InvalidLength f n l), m) \<and>
               F5Star m = (Inl (InvalidLength f n l), m) \<and>
               ComputeRESStar sha256 m mcc mnc = (Inl (InvalidLength f n l), m) \<and>
               GenerateAUTN m = (Inl (InvalidLength f n l), m) \<and>
               GenerateAUTS m = (Inl (InvalidLength f n l), m)"
    if "\<not> table_lengths m"
  proof -
    from that obtain e where e: "validateLength m = Some e"
      using validateLength_table [of m] by (cases "validateLength m") auto
    then obtain f n l where "e = InvalidLength f n l"
      using validateLength_error by blast
    with fail_fast [OF e] show ?thesis
      by blast
  qed
  then show ?thesis
    by (simp add: ComputeKAUSF_def ComputeKSEAF_def ComputeKAMF_def ComputeHXRESStar_def Let_def)
qed

theorem length_validation_witness:
  "\<not> table_lengths (New (replicate 15 0) None (replicate 16 0) 0 0) \<and>
   (\<exists>f n l. F1 (New (replicate 15 0) None (replicate 16 0) 0 0) =
              (Inl (InvalidLength f n l), New (replicate 15 0) None (replicate 16 0) 0 0))"
proof -
  have t: "\<not> table_lengths (New (replicate 15 0) None (replicate 16 0) 0 0)"
    by (simp add: table_lengths_def New_def)
  show ?thesis
    using t length_validation [of "New (replicate 15 0) None (replicate 16 0) 0 0"] by blast
qed

text \<open>
  Claim C5 as stated fails at the AKA layer: on a snapshot whose CK is empty,
  \<^verbatim>\<open>ComputeKAUSF\<close> returns a key, whatever the hash.
\<close>

theorem AKA_layer_counterexample:
  "length (CK (mil bad_aka)) \<noteq> 16 \<and>
   (\<forall>sha256. fst (ComputeKAUSF sha256 bad_aka) =
     Inr (hmac sha256 (replicate 16 0)
            [0x6a, 0x00, 0x00, 0x00, 0x00, 0x00, 0x00, 0x00, 0x00, 0x00, 0x06]))"
proof -
  have x: "Xor [0, 0, 0, 0, 0, 0] (replicate 6 0) = [0, 0, 0, 0, 0, 0]"
    by (simp add: Xor_def xor_bytes_map2 replicate_Cons_numeral)
  have m: "mil bad_aka = (New (replicate 16 0) None (replicate 16 0) 0 0)\<lparr>CK := []\<rparr>"
    "SNN bad_aka = []"
    by (simp_all add: bad_aka_def aka_New_def string_bytes_def)
  have f: "AK (New (replicate 16 0) None (replicate 16 0) 0 0) = replicate 6 0"
    "IK (New (replicate 16 0) None (replicate 16 0) 0 0) = replicate 16 0"
    by (simp_all add: New_def)
  show ?thesis
    by (simp add: ComputeKAUSF_def Let_def m SQN_New_0 f x byteArrayLen2B_eq)
qed

text \<open>
  Claim C6. For every Milenage instance that passes length validation, \<^verbatim>\<open>GenerateAUTN\<close>
  succeeds, leaves the instance as it is, and returns a 16-byte token whose first six
  bytes, xored with AK, are SQN, whose bytes 6..7 are AMF and whose bytes 8..15 are MACA,
  where SQN, AK, AMF and MACA are the instance's current fields.
\<close>

theorem GenerateAUTN_spec:
  assumes "validateLength m = None"
  shows "\<exists>autn. GenerateAUTN m = (Inr autn, m) \<and> length autn = 16 \<and>
           map2 (XOR) (take 6 autn) (AK m) = SQN m \<and>
           take 2 (drop 6 autn) = AMF m \<and> drop 8 autn = MACA m"
proof -
  have len: "length (SQN m) = 6" "length (AK m) = 6" "length (AMF m) = 2" "length (MACA m) = 8"
    using assms by (simp_all add: validateLength_None)
  have x: "length (map2 (XOR) (SQN m) (AK m)) = 6"
    using len by simp
  have a1: "copy_to (replicate 16 0) 0 6 (xor_bytes (SQN m) (AK m)) =
              map2 (XOR) (SQN m) (AK m) @ replicate 10 0"
    using copy_to_zeros [of "[]" 0 "map2 (XOR) (SQN m) (AK m)" 6 16] x
    by (simp add: xor_bytes_map2)
  have a2: "copy_to (map2 (XOR) (SQN m) (AK m) @ replicate 10 0) 6 8 (AMF m) =
              (map2 (XOR) (SQN m) (AK m) @ AMF m) @ replicate 8 0"
    using copy_to_zeros [of "map2 (XOR) (SQN m) (AK m)" 6 "AMF m" 8 10] x len by simp
  have a3: "copy_to ((map2 (XOR) (SQN m) (AK m) @ AMF m) @ replicate 8 0) 8 16 (MACA m) =
              map2 (XOR) (SQN m) (AK m) @ AMF m @ MACA m"
    using copy_to_zeros [of "map2 (XOR) (SQN m) (AK m) @ AMF m" 8 "MACA m" 16 8] x len by simp
  have g: "GenerateAUTN m = (Inr (map2 (XOR) (SQN m) (AK m) @ AMF m @ MACA m), m)"
    unfolding GenerateAUTN_def Let_def by (simp only: assms option.case a1 a2 a3)
  show ?thesis
    unfolding g using len x by (simp add: map2_xor_cancel)
qed

theorem GenerateAUTN_spec_witness:
  "validateLength (New (replicate 16 1) (Some (replicate 16 2)) (replicate 16 3) 4 5) = None \<and>
   (\<exists>autn. GenerateAUTN (New (replicate 16 1) (Some (replicate 16 2)) (replicate 16 3) 4 5) =
             (Inr autn, New (replicate 16 1) (Some (replicate 16 2)) (replicate 16 3) 4 5) \<and>
           length autn = 16 \<and>
           map2 (XOR) (take 6 autn) (AK (New (replicate 16 1) (Some (replicate 16 2)) (replicate 16 3) 4 5)) =
             SQN (New (replicate 16 1) (Some (replicate 16 2)) (replicate 16 3) 4 5) \<and>
           take 2 (drop 6 autn) = AMF (New (replicate 16 1) (Some (replicate 16 2)) (replicate 16 3) 4 5) \<and>
           drop 8 autn = MACA (New (replicate 16 1) (Some (replicate 16 2)) (replicate 16 3) 4 5))"
proof -
  have v: "validateLength (New (replicate 16 1) (Some (replicate 16 2)) (replicate 16 3) 4 5) = None"
    by (simp add: validateLength_New)
  show ?thesis
    using v GenerateAUTN_spec [OF v] by simp
qed

text \<open>
  Claim C7. For every 16-byte K, OP and RAND, every sqn and amf: \<^verbatim>\<open>ComputeOPc\<close> succeeds,
  and each of \<^verbatim>\<open>F1\<close>, \<^verbatim>\<open>F1Star\<close>, \<^verbatim>\<open>F2345\<close>, \<^verbatim>\<open>F5Star\<close>, \<^verbatim>\<open>ComputeRESStar\<close>,
  \<^verbatim>\<open>GenerateAUTN\<close> and \<^verbatim>\<open>GenerateAUTS\<close> returns the same value on the instance made by
  \<^verbatim>\<open>New\<close> from OP, which derives OPc on first use, as on the instance made by
  \<^verbatim>\<open>NewWithOPc\<close> from the OPc that \<^verbatim>\<open>ComputeOPc\<close> returns.
\<close>

theorem OP_vs_OPc:
  assumes "length k = 16" and "length op = 16" and "length rand = 16"
  shows "\<exists>opc. ComputeOPc k (Some op) = Inr opc \<and>
           fst (F1 (New k (Some op) rand sqn amf)) =
             fst (F1 (NewWithOPc k (Some opc) rand sqn amf)) \<and>
           fst (F1Star (New k (Some op) rand sqn amf) s a) =
             fst (F1Star (NewWithOPc k (Some opc) rand sqn amf) s a) \<and>
           fst (F2345 (New k (Some op) rand sqn amf)) =
             fst (F2345 (NewWithOPc k (Some opc) rand sqn amf)) \<and>
           fst (F5Star (New k (Some op) rand sqn amf)) =
             fst (F5Star (NewWithOPc k (Some opc) rand sqn amf)) \<and>
           fst (ComputeRESStar sha256 (New k (Some op) rand sqn amf) mcc mnc) =
             fst (ComputeRESStar sha256 (NewWithOPc k (Some opc) rand sqn amf) mcc mnc) \<and>
           fst (GenerateAUTN (New k (Some op) rand sqn amf)) =
             fst (GenerateAUTN (NewWithOPc k (Some opc) rand sqn amf)) \<and>
           fst (GenerateAUTS (New k (Some op) rand sqn amf)) =
             fst (GenerateAUTS (NewWithOPc k (Some opc) rand sqn amf))"
proof -
  let ?opc = "map2 (XOR) (AES128 k op) op"
  let ?N = "New k (Some op) rand sqn amf"
  let ?W = "NewWithOPc k (Some ?opc) rand sqn amf"
  have lo: "length ?opc = 16"
    using assms(2) by (simp add: length_AES128)
  have c: "ComputeOPc k (Some op) = Inr ?opc"
    using assms(1,2) by (rule ComputeOPc_closed)
  have vN: "validateLength ?N = None"
    using assms by (rule validateLength_New(1))
  have vW: "validateLength ?W = None"
    using assms(1) lo assms(3) by (rule validateLength_New(2))
  have oN: "OPc ?N \<noteq> None \<or> OP ?N \<noteq> None" and oW: "OPc ?W \<noteq> None \<or> OP ?W \<noteq> None"
    by (simp_all add: New_fields NewWithOPc_fields)
  have sN: "spec_OPc ?N = ?opc" and sW: "spec_OPc ?W = ?opc"
    by (simp_all add: spec_OPc_def New_fields NewWithOPc_fields slice_def)
  note f = New_fields NewWithOPc_fields New_other_fields sN sW
  have f1: "fst (F1 ?N) = fst (F1 ?W)"
    by (simp add: F1_closed [OF vN oN] F1_closed [OF vW oW] f)
  have f1s: "fst (F1Star ?N s a) = fst (F1Star ?W s a)"
  proof (cases "6 \<le> length s \<and> 2 \<le> length a")
    case True
    then show ?thesis
      by (simp add: F1Star_closed [OF vN oN] F1Star_closed [OF vW oW] f)
  next
    case False
    then have "length s < 6 \<or> length a < 2" by auto
    then show ?thesis
      by (simp add: F1Star_short [OF vN oN] F1Star_short [OF vW oW])
  qed
  have f2: "fst (F2345 ?N) = fst (F2345 ?W)"
    by (simp add: F2345_closed [OF vN oN] F2345_closed [OF vW oW] f)
  have f5: "fst (F5Star ?N) = fst (F5Star ?W)"
    by (simp add: F5Star_closed [OF vN oN] F5Star_closed [OF vW oW] f)
  have r: "fst (ComputeRESStar sha256 ?N mcc mnc) = fst (ComputeRESStar sha256 ?W mcc mnc)"
  proof (cases "length mcc = 3 \<and> (length mnc = 2 \<or> length mnc = 3)")
    case True
    then show ?thesis
      by (simp add: ComputeRESStar_closed [OF vN] ComputeRESStar_closed [OF vW] f)
  next
    case False
    then show ?thesis
      by (auto simp add: ComputeRESStar_def vN vW)
  qed
  have n: "fst (GenerateAUTN ?N) = fst (GenerateAUTN ?W)"
    by (simp add: GenerateAUTN_def vN vW Let_def f)
  have s: "fst (GenerateAUTS ?N) = fst (GenerateAUTS ?W)"
    by (simp add: GenerateAUTS_closed [OF vN oN] GenerateAUTS_closed [OF vW oW] f)
  show ?thesis
    using c f1 f1s f2 f5 r n s by blast
qed

theorem OP_vs_OPc_witness:
  "length (replicate 16 (1::byte)) = 16 \<and> length (replicate 16 (2::byte)) = 16 \<and>
   length (replicate 16 (3::byte)) = 16 \<and>
   (\<exists>opc. ComputeOPc (replicate 16 1) (Some (replicate 16 2)) = Inr opc \<and>
      fst (F2345 (New (replicate 16 1) (Some (replicate 16 2)) (replicate 16 3) 4 5)) =
        fst (F2345 (NewWithOPc (replicate 16 1) (Some opc) (replicate 16 3) 4 5)))"
  using OP_vs_OPc [of "replicate 16 1" "replicate 16 2" "replicate 16 3" 4 5] by simp blast

text \<open>
  Claim C8. For every 16-byte K and OP, \<^verbatim>\<open>ComputeOPc\<close> succeeds and returns exactly
  AES-128-Encrypt(K, OP) xor OP, which is 16 bytes long: the copy loop of \<^verbatim>\<open>computeOPc\<close>,
  although bounded by \<open>i > len\<close>, writes all 16 bytes of the result. The result is a
  function of K and OP alone.
\<close>

theorem ComputeOPc_spec:
  assumes "length k = 16" "length op = 16"
  shows "ComputeOPc k (Some op) = Inr (map2 (XOR) (AES128 k op) op) \<and>
         length (map2 (XOR) (AES128 k op) op) = 16"
  using assms by (simp add: ComputeOPc_closed length_AES128)

theorem ComputeOPc_spec_witness:
  "length (replicate 16 (1::byte)) = 16 \<and> length (replicate 16 (2::byte)) = 16 \<and>
   ComputeOPc (replicate 16 1) (Some (replicate 16 2)) =
     Inr (map2 (XOR) (AES128 (replicate 16 1) (replicate 16 2)) (replicate 16 2)) \<and>
   length (map2 (XOR) (AES128 (replicate 16 1) (replicate 16 2)) (replicate 16 2)) = 16"
  using ComputeOPc_spec [of "replicate 16 1" "replicate 16 2"] by simp

text \<open>
  Claim C9. For every Aka instance, \<^verbatim>\<open>ComputeKAMF\<close> succeeds, and returns and stores in KAMF
  the full HMAC, keyed with the instance's KAUSF, of
  0x6D, SUPI, the length of SUPI in two bytes, 0x00 0x00, 0x00 0x02; it is 32 bytes long,
  as the digests of the hash are. The two length bytes are the high and the low byte of
  the length: its big-endian encoding whenever the length fits 16 bits, and the encoding
  of the length modulo 65536 beyond that.
\<close>

theorem ComputeKAMF_spec:
  "fst (ComputeKAMF sha256 a) =
     Inr (hmac sha256 (KAUSF a)
            ([0x6d] @ SUPI a @
             [of_nat (length (SUPI a) div 256), of_nat (length (SUPI a) mod 256)] @
             [0x00, 0x00] @ [0x00, 0x02])) \<and>
   KAMF (snd (ComputeKAMF sha256 a)) =
     hmac sha256 (KAUSF a)
       ([0x6d] @ SUPI a @
        [of_nat (length (SUPI a) div 256), of_nat (length (SUPI a) mod 256)] @
        [0x00, 0x00] @ [0x00, 0x02]) \<and>
   ((\<forall>x. length (sha256 x) = 32) \<longrightarrow> length (KAMF (snd (ComputeKAMF sha256 a))) = 32) \<and>
   (length (SUPI a) < 65536 \<longrightarrow>
      256 * unat (of_nat (length (SUPI a) div 256) :: byte) +
        unat (of_nat (length (SUPI a) mod 256) :: byte) = length (SUPI a))"
  by (simp add: ComputeKAMF_def Let_def byteArrayLen2B_eq length_hmac be16_value)

theorem ComputeKAMF_spec_witness:
  "(\<forall>x::bytes. length (replicate 32 (0::byte)) = 32) \<and>
   length (SUPI (aka_New (New [] None [] 0 0) [] ''001010123456789'')) < 65536 \<and>
   length (KAMF (snd (ComputeKAMF (\<lambda>x. replicate 32 0) (aka_New (New [] None [] 0 0) [] ''001010123456789'')))) = 32 \<and>
   256 * unat (of_nat (length (SUPI (aka_New (New [] None [] 0 0) [] ''001010123456789'')) div 256) :: byte) +
     unat (of_nat (length (SUPI (aka_New (New [] None [] 0 0) [] ''001010123456789'')) mod 256) :: byte) =
   length (SUPI (aka_New (New [] None [] 0 0) [] ''001010123456789''))"
proof -
  note t = ComputeKAMF_spec [of "\<lambda>x. replicate 32 0" "aka_New (New [] None [] 0 0) [] ''001010123456789''"]
  have h: "\<forall>x::bytes. length (replicate 32 (0::byte)) = 32"
    by simp
  have s: "length (SUPI (aka_New (New [] None [] 0 0) [] ''001010123456789'')) < 65536"
    by (simp add: aka_New_def string_bytes_def)
  from t h have l: "length (KAMF (snd (ComputeKAMF (\<lambda>x. replicate 32 0) (aka_New (New [] None [] 0 0) [] ''001010123456789'')))) = 32"
    by blast
  from t s have e: "256 * unat (of_nat (length (SUPI (aka_New (New [] None [] 0 0) [] ''001010123456789'')) div 256) :: byte) +
     unat (of_nat (length (SUPI (aka_New (New [] None [] 0 0) [] ''001010123456789'')) mod 256) :: byte) = length (SUPI (aka_New (New [] None [] 0 0) [] ''001010123456789''))"
    by blast
  show ?thesis
    using h s l e by blast
qed

text \<open>
  Claim C10. \<^verbatim>\<open>ComputeRESStar\<close> modifies no field of the instance, whether it succeeds or
  fails: the instance after the call is the instance before it. In particular the RESStar
  field keeps its old value, so an Aka snapshot taken after the call hashes RAND followed
  by that old value in \<^verbatim>\<open>ComputeHXRESStar\<close>, exactly as a snapshot taken before the call;
  the computed RES* reaches the snapshot only when the caller assigns it to the field.
\<close>

theorem ComputeRESStar_frame:
  "snd (ComputeRESStar sha256 m mcc mnc) = m \<and>
   RESStar (snd (ComputeRESStar sha256 m mcc mnc)) = RESStar m \<and>
   ComputeHXRESStar sha256 (aka_New (snd (ComputeRESStar sha256 m mcc mnc)) snn supi) =
     ComputeHXRESStar sha256 (aka_New m snn supi) \<and>
   fst (ComputeHXRESStar sha256 (aka_New m snn supi)) =
     Inr (drop (length (sha256 (RAND m @ RESStar m)) - 16) (sha256 (RAND m @ RESStar m)))"
proof -
  have "snd (ComputeRESStar sha256 m mcc mnc) = m"
    by (simp add: ComputeRESStar_def Let_def split: option.split sum.split)
  then show ?thesis
    by (simp add: ComputeHXRESStar_def aka_New_def Let_def)
qed

end
